theory Spec2Isabelle
  imports Main "HOL-Library.Word" "HOL-Library.Signed_Division"
begin

section \<open>The file-system workload generator \<open>fs_bench.c\<close>\<close>

text \<open>
  The program is a single C function \<open>main\<close>.  It is modelled for an LP64 target
  (Linux/glibc on a 64-bit machine): \<open>size_t\<close>, \<open>long long\<close>, \<open>off_t\<close> and
  \<open>unsigned long\<close> are 64-bit words, \<open>unsigned int\<close> is a 32-bit word.  A word carries no
  sign; \<open>sint\<close> reads it as two's complement, \<open>uint\<close>/\<open>unat\<close> as unsigned, and the signed
  comparisons of C are \<open><s\<close> and \<open>\<le>s\<close>.
\<close>

subsection \<open>Machine integers\<close>

type_synonym size_t = "64 word"
type_synonym llong = "64 word"
type_synonym off_t = "64 word"
type_synonym c_uint = "32 word"

text \<open>C's \<open>/\<close> and \<open>%\<close> on \<open>long long\<close>: the quotient is truncated towards zero.\<close>

definition sdiv_ll :: "llong \<Rightarrow> llong \<Rightarrow> llong" where
  "sdiv_ll a b = word_of_int (sint a sdiv sint b)"

definition smod_ll :: "llong \<Rightarrow> llong \<Rightarrow> llong" where
  "smod_ll a b = word_of_int (sint a smod sint b)"

subsection \<open>The C library's number parsers\<close>

text \<open>
  \<open>strtoull\<close>, \<open>strtoll\<close> and \<open>strtoul\<close> with base 10 and a null end pointer (ISO C
  7.22.1.4): leading white space is skipped, one sign is accepted, the longest run of
  decimal digits is converted and whatever follows is ignored.  Without a digit the
  result is 0.  A value out of range is clamped to the limit of the type; a minus sign
  negates an in-range value in the return type.
\<close>

definition isspace_c :: "char \<Rightarrow> bool" where
  "isspace_c ch = (ch = CHR '' '' \<or> ch = CHR 0x09 \<or> ch = CHR 0x0A \<or> ch = CHR 0x0B
                   \<or> ch = CHR 0x0C \<or> ch = CHR 0x0D)"

definition isdigit_c :: "char \<Rightarrow> bool" where
  "isdigit_c ch = (48 \<le> (of_char ch :: int) \<and> (of_char ch :: int) \<le> 57)"

definition digit_value :: "char \<Rightarrow> int" where
  "digit_value ch = of_char ch - 48"

definition split_sign :: "string \<Rightarrow> bool \<times> string" where
  "split_sign s =
     (case s of
        [] \<Rightarrow> (False, [])
      | ch # r \<Rightarrow> if ch = CHR ''-'' then (True, r)
                 else if ch = CHR ''+'' then (False, r)
                 else (False, s))"

definition scan_decimal :: "string \<Rightarrow> bool \<times> int option" where
  "scan_decimal s =
     (case split_sign (dropWhile isspace_c s) of
        (neg, r) \<Rightarrow>
          (let ds = takeWhile isdigit_c r
           in (neg, if ds = [] then None
                    else Some (foldl (\<lambda>acc ch. 10 * acc + digit_value ch) 0 ds))))"

definition strtoull :: "string \<Rightarrow> 64 word" where
  "strtoull s =
     (case scan_decimal s of
        (neg, None) \<Rightarrow> 0
      | (neg, Some m) \<Rightarrow>
          if 2 ^ 64 \<le> m then - 1
          else if neg then - word_of_int m
          else word_of_int m)"

definition strtoll :: "string \<Rightarrow> llong" where
  "strtoll s =
     (case scan_decimal s of
        (neg, None) \<Rightarrow> 0
      | (neg, Some m) \<Rightarrow>
          if neg then (if 2 ^ 63 < m then word_of_int (- (2 ^ 63)) else - word_of_int m)
          else (if 2 ^ 63 \<le> m then word_of_int (2 ^ 63 - 1) else word_of_int m))"

definition strtoul :: "string \<Rightarrow> 64 word" where
  "strtoul s = strtoull s"

subsection \<open>Configuration and argument parsing\<close>

text \<open>
  The five locals that the argument loop fills in, with their initial values (lines 40
  to 44; \<open>NULL\<close> is \<open>None\<close>).
\<close>

record config =
  file_path :: "string option"
  mode :: "string option"
  record_size :: size_t
  total_bytes :: llong
  seed :: c_uint

definition init_config :: config where
  "init_config =
     \<lparr>file_path = None, mode = None, record_size = 0, total_bytes = 0, seed = 12345\<rparr>"

text \<open>The five flags that the argument loop compares \<open>argv[i]\<close> with (lines 48 to 56).\<close>

definition known_flags :: "string list" where
  "known_flags = [''--file'', ''--mode'', ''--record-size'', ''--total-bytes'', ''--seed'']"

text \<open>
  The loop over \<open>argv[1..argc-1]\<close> (lines 47 to 63).  A flag is accepted only when another argument
  follows it (\<open>i + 1 < argc\<close>), and that argument is consumed as its value whatever it
  looks like.  \<open>Inl a\<close> is the \<open>else\<close> branch, taken at argument \<open>a\<close>.
\<close>

fun parse_args :: "string list \<Rightarrow> config \<Rightarrow> string + config" where
  "parse_args [] c = Inr c"
| "parse_args [a] c = Inl a"
| "parse_args (a # v # rest) c =
     (if a = ''--file'' then parse_args rest (c\<lparr>file_path := Some v\<rparr>)
      else if a = ''--mode'' then parse_args rest (c\<lparr>mode := Some v\<rparr>)
      else if a = ''--record-size'' then parse_args rest (c\<lparr>record_size := strtoull v\<rparr>)
      else if a = ''--total-bytes'' then parse_args rest (c\<lparr>total_bytes := strtoll v\<rparr>)
      else if a = ''--seed'' then parse_args rest (c\<lparr>seed := ucast (strtoul v)\<rparr>)
      else Inl a)"

subsection \<open>The environment\<close>

text \<open>
  What the program observes of the operating system and of the C library: the result of
  \<open>open\<close> (an \<open>errno\<close> on failure), of \<open>fstat\<close> (the \<open>st_size\<close> on success), of the
  \<open>k\<close>-th \<open>pread\<close> (the number of bytes read, or an \<open>errno\<close> when it returns \<open>-1\<close>), whether
  \<open>malloc\<close> succeeds, and the pseudo-random generator.  The generator is a state machine:
  \<open>srand\<close> sets the state from the seed and every \<open>rand\<close> returns an \<open>int\<close> between 0
  and \<open>RAND_MAX = 2^31 - 1\<close>, that is a 31-bit value, and the next state.
\<close>

type_synonym errno = int

record 's world =
  sys_open :: "string \<Rightarrow> errno option"
  sys_fstat :: "string \<Rightarrow> errno + off_t"
  sys_pread :: "int \<Rightarrow> size_t \<Rightarrow> off_t \<Rightarrow> errno + size_t"
  lib_malloc :: "size_t \<Rightarrow> bool"
  lib_srand :: "c_uint \<Rightarrow> 's"
  lib_rand :: "'s \<Rightarrow> 31 word \<times> 's"

text \<open>The operations on the file, in the order the program performs them.\<close>

datatype io_event = Open string | Fstat | Pread size_t off_t | Close

text \<open>One constructor for each message the program prints on the error stream.\<close>

datatype diag =
    UnknownArgument string
  | Usage string
  | MissingRequired
  | InvalidMode string
  | OpenFailed string errno
  | FstatFailed string errno
  | FileSizeNonPositive off_t
  | FileTooSmall off_t llong
  | TotalBytesTooSmall llong size_t
  | MallocFailed size_t
  | PreadFailed off_t size_t errno

record outcome =
  exit_code :: int
  stderr_log :: "diag list"
  stdout_log :: "string list"
  io_trace :: "io_event list"

definition failure :: "diag list \<Rightarrow> io_event list \<Rightarrow> outcome" where
  "failure ds evs = \<lparr>exit_code = 1, stderr_log = ds, stdout_log = [], io_trace = evs\<rparr>"

definition success :: "io_event list \<Rightarrow> outcome" where
  "success evs = \<lparr>exit_code = 0, stderr_log = [], stdout_log = [], io_trace = evs\<rparr>"

subsection \<open>The plan and the workload loop\<close>

text \<open>
  \<open>ops = total_bytes / (long long)record_size\<close> (line 113),
  \<open>max_offset = total_bytes - (long long)record_size\<close> (line 123) and the expression
  \<open>max_offset / (off_t)record_size + 1\<close> that both branches of the loop body compute
  (lines 144 and 148).  The casts keep the 64 bits and change how they are read.
\<close>

definition plan_ops :: "llong \<Rightarrow> size_t \<Rightarrow> llong" where
  "plan_ops tb rs = sdiv_ll tb rs"

definition plan_max_offset :: "llong \<Rightarrow> size_t \<Rightarrow> off_t" where
  "plan_max_offset tb rs = tb - rs"

definition block_count :: "off_t \<Rightarrow> size_t \<Rightarrow> llong" where
  "block_count max_offset rs = sdiv_ll max_offset rs + 1"

text \<open>
  The body of the loop up to the read (lines 140 to 150): the offset of iteration \<open>i\<close>
  and the generator's state after it.  Only the random mode calls \<open>rand\<close>.
\<close>

definition next_offset ::
  "'s world \<Rightarrow> bool \<Rightarrow> size_t \<Rightarrow> off_t \<Rightarrow> llong \<Rightarrow> 's \<Rightarrow> off_t \<times> 's" where
  "next_offset w mode_rand rs max_offset i st =
     (if mode_rand then
        (case lib_rand w st of
           (r, st') \<Rightarrow> (smod_ll (ucast r) (block_count max_offset rs) * rs, st'))
      else (smod_ll i (block_count max_offset rs) * rs, st))"

text \<open>
  \<open>for (long long i = 0; i < ops; ++i)\<close> (lines 139 to 162): the reads issued from
  iteration \<open>i\<close> on, and the diagnostic of the read that failed, if one did.  A read that
  returns fewer bytes than asked for is not a failure.
\<close>

function workload ::
  "'s world \<Rightarrow> bool \<Rightarrow> size_t \<Rightarrow> off_t \<Rightarrow> llong \<Rightarrow> llong \<Rightarrow> 's \<Rightarrow> io_event list \<times> diag option"
where
  "workload w mode_rand rs max_offset ops i st =
     (if i <s ops then
        (case next_offset w mode_rand rs max_offset i st of
           (offset, st') \<Rightarrow>
             (case sys_pread w (sint i) rs offset of
                Inl e \<Rightarrow> ([Pread rs offset], Some (PreadFailed offset rs e))
              | Inr n \<Rightarrow>
                  (case workload w mode_rand rs max_offset ops (i + 1) st' of
                     (evs, d) \<Rightarrow> (Pread rs offset # evs, d))))
      else ([], None))"
  by pat_completeness auto
termination
  apply (relation "measure (\<lambda>(w, mode_rand, rs, max_offset, ops, i, st). nat (sint ops - sint i))")
   apply simp
  subgoal for w mode_rand rs max_offset ops i st
    using sint_lt [of ops] sint_ge [of i]
    by (simp add: word_sless_alt sint_word_ariths signed_take_bit_int_eq_self)
  done

subsection \<open>The program\<close>

text \<open>
  Everything after the argument loop (lines 65 to 166), check by check in the order of the
  source.  A failed \<open>open\<close> returns at once; every later exit closes the file first.
\<close>

definition run :: "'s world \<Rightarrow> string \<Rightarrow> config \<Rightarrow> outcome" where
  "run w prog c =
     (case file_path c of
        None \<Rightarrow> failure [MissingRequired, Usage prog] []
      | Some p \<Rightarrow>
     (case mode c of
        None \<Rightarrow> failure [MissingRequired, Usage prog] []
      | Some m \<Rightarrow>
     if record_size c = 0 \<or> total_bytes c \<le>s 0 then failure [MissingRequired, Usage prog] []
     else if \<not> (m = ''rand'' \<or> m = ''seq'') then failure [InvalidMode m, Usage prog] []
     else
     (case sys_open w p of
        Some e \<Rightarrow> failure [OpenFailed p e] [Open p]
      | None \<Rightarrow>
     (case sys_fstat w p of
        Inl e \<Rightarrow> failure [FstatFailed p e] [Open p, Fstat, Close]
      | Inr file_size \<Rightarrow>
     if file_size \<le>s 0 then
       failure [FileSizeNonPositive file_size] [Open p, Fstat, Close]
     else if file_size <s total_bytes c then
       failure [FileTooSmall file_size (total_bytes c)] [Open p, Fstat, Close]
     else if plan_ops (total_bytes c) (record_size c) \<le>s 0 then
       failure [TotalBytesTooSmall (total_bytes c) (record_size c)] [Open p, Fstat, Close]
     else if \<not> lib_malloc w (record_size c) then
       failure [MallocFailed (record_size c)] [Open p, Fstat, Close]
     else
     (case workload w (m = ''rand'') (record_size c)
             (plan_max_offset (total_bytes c) (record_size c))
             (plan_ops (total_bytes c) (record_size c)) 0 (lib_srand w (seed c)) of
        (evs, Some d) \<Rightarrow> failure [d] ([Open p, Fstat] @ evs @ [Close])
      | (evs, None) \<Rightarrow> success ([Open p, Fstat] @ evs @ [Close]))))))"

definition main :: "'s world \<Rightarrow> string \<Rightarrow> string list \<Rightarrow> outcome" where
  "main w prog args =
     (case parse_args args init_config of
        Inl a \<Rightarrow> failure [UnknownArgument a, Usage prog] []
      | Inr c \<Rightarrow> run w prog c)"

subsection \<open>Observing a run\<close>

text \<open>The positioned reads of a trace, each with its size and its offset, in order.\<close>

fun reads :: "io_event list \<Rightarrow> (size_t \<times> off_t) list" where
  "reads [] = []"
| "reads (Pread n off # evs) = (n, off) # reads evs"
| "reads (Open p # evs) = reads evs"
| "reads (Fstat # evs) = reads evs"
| "reads (Close # evs) = reads evs"

definition read_offsets :: "io_event list \<Rightarrow> off_t list" where
  "read_offsets evs = map snd (reads evs)"

subsection \<open>A sample environment\<close>

text \<open>
  An environment to run the model in: one file of a given size that can be opened, reads
  that return the full count, an allocator that never fails and the linear congruential
  generator that ISO C gives as an example implementation of \<open>rand\<close>.
\<close>

definition lcg_rand :: "32 word \<Rightarrow> 31 word \<times> 32 word" where
  "lcg_rand s = (let s' = s * 1103515245 + 12345 in (ucast ((s' div 65536) mod 32768), s'))"

definition sample_world :: "string \<Rightarrow> int \<Rightarrow> 32 word world" where
  "sample_world path sz =
     \<lparr>sys_open = (\<lambda>p. if p = path then None else Some 2),
      sys_fstat = (\<lambda>p. Inr (word_of_int sz)),
      sys_pread = (\<lambda>k n off. Inr n),
      lib_malloc = (\<lambda>n. True),
      lib_srand = (\<lambda>s. s),
      lib_rand = lcg_rand\<rparr>"

text \<open>The same environment with a disk that fails the third read with \<open>EIO\<close>.\<close>

definition faulty_world :: "string \<Rightarrow> int \<Rightarrow> 32 word world" where
  "faulty_world path sz =
     (sample_world path sz)\<lparr>sys_pread := (\<lambda>k n off. if k = 2 then Inl 5 else Inr n)\<rparr>"

section \<open>Arithmetic of the plan\<close>

declare workload.simps [simp del]

lemma sint_word_of_int_64:
  "- (2 ^ 63) \<le> k \<Longrightarrow> k < 2 ^ 63 \<Longrightarrow> sint (word_of_int k :: 64 word) = k"
  by (simp add: sint_sbintrunc' signed_take_bit_int_eq_self)

lemma uint_eq_sint_64:
  fixes w :: "64 word"
  assumes "0 \<le> sint w"
  shows "uint w = sint w"
proof -
  have "sint w < 2 ^ 64" using sint_lt [of w] by simp
  then show ?thesis using assms by (simp add: uint_sint take_bit_int_eq_self)
qed

lemma sint_ucast_rand:
  fixes r :: "31 word"
  shows "sint (ucast r :: 64 word) = uint r"
proof -
  have "uint r < 2 ^ 31" using uint_lt2p [of r] by simp
  then have "uint r < 2 ^ 63" by (rule less_le_trans) simp
  moreover have "- (2 ^ 63) \<le> uint r"
    by (rule order_trans [of _ 0]) simp_all
  ultimately have "signed_take_bit 63 (uint r) = uint r"
    by (rule signed_take_bit_int_eq_self [rotated])
  then show ?thesis
    by (simp add: signed_ucast_eq)
qed

lemma sdiv_nonneg_pos: "0 \<le> a \<Longrightarrow> 0 < b \<Longrightarrow> (a::int) sdiv b = a div b"
  by (cases "a = 0") (simp_all add: signed_divide_int_def)

lemma smod_nonneg_pos: "0 \<le> a \<Longrightarrow> 0 < b \<Longrightarrow> (a::int) smod b = a mod b"
  by (cases "a = 0") (simp_all add: signed_modulo_int_def)

lemma sdiv_pos_neg:
  fixes a b :: int
  assumes "0 < a" and "b < 0"
  shows "a sdiv b \<le> 0" and "- a \<le> a sdiv b"
proof -
  have eq: "a sdiv b = - (a div (- b))"
    using assms by (simp add: signed_divide_int_def)
  have "0 \<le> a div (- b)" using assms by (simp add: pos_imp_zdiv_nonneg_iff)
  moreover have "a div (- b) \<le> a" using assms by (simp add: int_div_le_self)
  ultimately show "a sdiv b \<le> 0" and "- a \<le> a sdiv b" using eq by simp_all
qed

text \<open>
  What the three checks before the loop establish: the record size, read as a signed
  number, is positive and at most \<open>total_bytes\<close>, and the quotient is the mathematical one.
\<close>

lemma plan_int:
  fixes tb rs :: "64 word"
  assumes rs: "rs \<noteq> 0" and tb: "\<not> tb \<le>s 0" and ops: "\<not> plan_ops tb rs \<le>s 0"
  shows "0 < sint rs" and "sint rs \<le> sint tb"
    and "sint (plan_ops tb rs) = sint tb div sint rs"
    and "uint rs = sint rs"
proof -
  have a: "0 < sint tb" using tb by (simp add: word_sle_eq)
  have b0: "sint rs \<noteq> 0" using rs by (simp add: signed_eq_0_iff)
  have alt: "sint tb < 2 ^ 63" using sint_lt [of tb] by simp
  show b: "0 < sint rs"
  proof (rule ccontr)
    assume "\<not> 0 < sint rs"
    then have neg: "sint rs < 0" using b0 by simp
    have "sint (plan_ops tb rs) = sint tb sdiv sint rs"
      unfolding plan_ops_def sdiv_ll_def
      using sdiv_pos_neg [OF a neg] alt by (intro sint_word_of_int_64) linarith+
    then show False using ops sdiv_pos_neg(1) [OF a neg] by (simp add: word_sle_eq)
  qed
  have qd: "sint tb sdiv sint rs = sint tb div sint rs"
    using a b by (simp add: sdiv_nonneg_pos)
  have "0 \<le> sint tb div sint rs" using a b by (simp add: pos_imp_zdiv_nonneg_iff)
  moreover have "sint tb div sint rs \<le> sint tb" using a by (simp add: int_div_le_self)
  ultimately show q: "sint (plan_ops tb rs) = sint tb div sint rs"
    unfolding plan_ops_def sdiv_ll_def qd using alt by (intro sint_word_of_int_64) linarith+
  show "sint rs \<le> sint tb"
  proof (rule ccontr)
    assume "\<not> sint rs \<le> sint tb"
    then have "sint tb div sint rs = 0" using a by (simp add: div_pos_pos_trivial)
    then show False using ops q by (simp add: word_sle_eq)
  qed
  show "uint rs = sint rs" using b by (simp add: uint_eq_sint_64)
qed

lemma plan_max_offset_int:
  fixes tb rs :: "64 word"
  assumes "0 < sint rs" and "sint rs \<le> sint tb"
  shows "sint (plan_max_offset tb rs) = sint tb - sint rs"
proof -
  have "sint tb < 2 ^ 63" using sint_lt [of tb] by simp
  then show ?thesis
    using assms by (simp add: plan_max_offset_def sint_word_diff signed_take_bit_int_eq_self)
qed

lemma block_count_eq_ops:
  fixes tb rs :: "64 word"
  assumes "0 < sint rs" and "sint rs \<le> sint tb"
  shows "block_count (plan_max_offset tb rs) rs = plan_ops tb rs"
proof -
  let ?a = "sint tb" and ?b = "sint rs"
  have step: "(?a - ?b) div ?b + 1 = ?a div ?b"
    using assms div_add_self2 [of ?b "?a - ?b"] by simp
  have d1: "(?a - ?b) sdiv ?b = (?a - ?b) div ?b"
    using assms by (simp add: sdiv_nonneg_pos)
  have d2: "?a sdiv ?b = ?a div ?b"
    using assms by (simp add: sdiv_nonneg_pos)
  have "block_count (plan_max_offset tb rs) rs = word_of_int ((?a - ?b) div ?b) + 1"
    unfolding block_count_def sdiv_ll_def plan_max_offset_int [OF assms] d1 ..
  also have "\<dots> = word_of_int ((?a - ?b) div ?b + 1)"
    by simp
  also have "\<dots> = word_of_int (?a div ?b)"
    unfolding step ..
  also have "\<dots> = plan_ops tb rs"
    unfolding plan_ops_def sdiv_ll_def d2 ..
  finally show ?thesis .
qed

lemma block_bounds:
  fixes x T R :: int
  assumes "0 < R" and "R \<le> T"
  shows "0 \<le> (x mod (T div R)) * R" and "(x mod (T div R)) * R \<le> T - R"
proof -
  let ?q = "T div R"
  have q: "0 < ?q" using assms by (simp add: pos_imp_zdiv_pos_iff)
  have m: "0 \<le> x mod ?q" "x mod ?q \<le> ?q - 1"
    using q pos_mod_bound [of ?q x] by simp_all
  show "0 \<le> (x mod ?q) * R" using m assms by simp
  have "(x mod ?q) * R \<le> (?q - 1) * R"
    using m assms by (intro mult_right_mono) simp_all
  also have "\<dots> = ?q * R - R" by (simp add: algebra_simps)
  finally have "(x mod ?q) * R \<le> ?q * R - R" .
  moreover have "?q * R \<le> T"
    using div_mult_mod_eq [of T R] pos_mod_sign [of R T] assms by linarith
  ultimately show "(x mod ?q) * R \<le> T - R" by linarith
qed

lemma offset_value:
  fixes tb rs xw :: "64 word"
  assumes R: "0 < sint rs" and RT: "sint rs \<le> sint tb" and x: "0 \<le> sint xw"
  shows "sint (smod_ll xw (plan_ops tb rs) * rs)
         = (sint xw mod (sint tb div sint rs)) * sint rs"
proof -
  let ?T = "sint tb" and ?R = "sint rs" and ?x = "sint xw"
  let ?q = "?T div ?R"
  have T: "?T < 2 ^ 63" using sint_lt [of tb] by simp
  have q: "0 < ?q" using R RT by (simp add: pos_imp_zdiv_pos_iff)
  have "0 \<le> ?q" "?q \<le> ?T" using q R RT by (simp_all add: int_div_le_self)
  then have sq: "sint (plan_ops tb rs) = ?q"
    unfolding plan_ops_def sdiv_ll_def sdiv_nonneg_pos [OF order_trans [OF less_imp_le [OF R] RT] R]
    using T by (intro sint_word_of_int_64) linarith+
  have sm: "?x smod ?q = ?x mod ?q" using x q by (rule smod_nonneg_pos)
  have "smod_ll xw (plan_ops tb rs) * rs = word_of_int (?x mod ?q) * word_of_int ?R"
    unfolding smod_ll_def sq sm by simp
  also have "\<dots> = word_of_int ((?x mod ?q) * ?R)" by simp
  finally have eq: "smod_ll xw (plan_ops tb rs) * rs = word_of_int ((?x mod ?q) * ?R)" .
  define v where "v = (?x mod ?q) * ?R"
  have "0 \<le> v" "v \<le> ?T - ?R"
    unfolding v_def using block_bounds [OF R RT, of ?x] by simp_all
  then have "- (2 ^ 63) \<le> v" "v < 2 ^ 63" using T R by linarith+
  then have "sint (word_of_int v :: 64 word) = v" by (rule sint_word_of_int_64)
  then show ?thesis unfolding eq v_def .
qed

section \<open>The workload loop\<close>

lemma workload_stop:
  "\<not> i <s ops \<Longrightarrow> workload w m rs mo ops i st = ([], None)"
  by (simp add: workload.simps)

lemma workload_fail:
  assumes "i <s ops" and "next_offset w m rs mo i st = (off, st')"
    and "sys_pread w (sint i) rs off = Inl e"
  shows "workload w m rs mo ops i st = ([Pread rs off], Some (PreadFailed off rs e))"
  using assms by (simp add: workload.simps [of w m rs mo ops i st])

lemma workload_step:
  assumes "i <s ops" and "next_offset w m rs mo i st = (off, st')"
    and "sys_pread w (sint i) rs off = Inr n"
  shows "workload w m rs mo ops i st =
           (Pread rs off # fst (workload w m rs mo ops (i + 1) st'),
            snd (workload w m rs mo ops (i + 1) st'))"
  using assms by (simp add: workload.simps [of w m rs mo ops i st] split: prod.splits)

lemma loop_counter_succ:
  fixes i ops :: llong
  assumes "i <s ops"
  shows "sint (i + 1) = sint i + 1"
proof -
  have lt: "sint i < sint ops" using assms by (simp add: word_sless_alt)
  have "sint ops < 2 ^ 63" using sint_lt [of ops] by simp
  moreover have "- (2 ^ 63) \<le> sint i" using sint_ge [of i] by simp
  ultimately show ?thesis
    using lt by (simp add: sint_word_ariths signed_take_bit_int_eq_self)
qed

text \<open>Every event of the loop is a read of \<open>record_size\<close> bytes.\<close>

lemma workload_reads:
  "reads (fst (workload w m rs mo ops i st))
     = map (\<lambda>off. (rs, off)) (read_offsets (fst (workload w m rs mo ops i st)))
   \<and> length (read_offsets (fst (workload w m rs mo ops i st)))
     = length (fst (workload w m rs mo ops i st))"
proof (induction w m rs mo ops i st rule: workload.induct)
  case (1 w m rs mo ops i st)
  show ?case
  proof (cases "i <s ops")
    case False
    then show ?thesis by (simp add: workload_stop read_offsets_def)
  next
    case True
    obtain off st' where no: "next_offset w m rs mo i st = (off, st')"
      by (cases "next_offset w m rs mo i st")
    show ?thesis
    proof (cases "sys_pread w (sint i) rs off")
      case (Inl e)
      then show ?thesis
        by (simp add: workload_fail [OF True no] read_offsets_def)
    next
      case (Inr n)
      from "1.IH" [OF True no [symmetric] Inr] show ?thesis
        by (simp add: workload_step [OF True no Inr] read_offsets_def)
    qed
  qed
qed

text \<open>A loop that ends without a failed read has run \<open>ops - i\<close> times.\<close>

lemma workload_length:
  "snd (workload w m rs mo ops i st) = None \<Longrightarrow>
   int (length (fst (workload w m rs mo ops i st))) = max 0 (sint ops - sint i)"
proof (induction w m rs mo ops i st rule: workload.induct)
  case (1 w m rs mo ops i st)
  show ?case
  proof (cases "i <s ops")
    case False
    then show ?thesis by (simp add: workload_stop word_sless_alt)
  next
    case True
    obtain off st' where no: "next_offset w m rs mo i st = (off, st')"
      by (cases "next_offset w m rs mo i st")
    show ?thesis
    proof (cases "sys_pread w (sint i) rs off")
      case (Inl e)
      then show ?thesis
        using "1.prems" by (simp add: workload_fail [OF True no])
    next
      case (Inr n)
      have "snd (workload w m rs mo ops (i + 1) st') = None"
        using "1.prems" by (simp add: workload_step [OF True no Inr])
      from "1.IH" [OF True no [symmetric] Inr this] True show ?thesis
        by (simp add: workload_step [OF True no Inr] loop_counter_succ [OF True] word_sless_alt)
    qed
  qed
qed

text \<open>A loop in which no read fails ends without a diagnostic.\<close>

lemma workload_no_failure:
  "\<forall>k n off e. sys_pread w k n off \<noteq> Inl e \<Longrightarrow>
   snd (workload w m rs mo ops i st) = None"
proof (induction w m rs mo ops i st rule: workload.induct)
  case (1 w m rs mo ops i st)
  show ?case
  proof (cases "i <s ops")
    case False
    then show ?thesis by (simp add: workload_stop)
  next
    case True
    obtain off st' where no: "next_offset w m rs mo i st = (off, st')"
      by (cases "next_offset w m rs mo i st")
    show ?thesis
    proof (cases "sys_pread w (sint i) rs off")
      case (Inl e)
      with "1.prems" show ?thesis by simp
    next
      case (Inr n)
      from "1.IH" [OF True no [symmetric] Inr "1.prems"] show ?thesis
        by (simp add: workload_step [OF True no Inr])
    qed
  qed
qed

text \<open>The offset of one iteration, under the plan that the checks before the loop admit.\<close>

lemma next_offset_in_range:
  assumes R: "0 < sint rs" and RT: "sint rs \<le> sint tb" and i: "0 \<le> sint i"
    and no: "next_offset w m rs (plan_max_offset tb rs) i st = (off, st')"
  shows "0 \<le> sint off \<and> sint off \<le> sint tb - sint rs \<and> sint off mod sint rs = 0"
proof -
  have bc: "block_count (plan_max_offset tb rs) rs = plan_ops tb rs"
    using R RT by (rule block_count_eq_ops)
  obtain xw :: "64 word" where x: "0 \<le> sint xw"
    and off: "off = smod_ll xw (plan_ops tb rs) * rs"
  proof (cases m)
    case True
    obtain r s where r: "lib_rand w st = (r, s)" by (cases "lib_rand w st")
    have "0 \<le> sint (ucast r :: 64 word)" by (simp add: sint_ucast_rand)
    moreover have "off = smod_ll (ucast r) (plan_ops tb rs) * rs"
      using no True r by (simp add: next_offset_def bc)
    ultimately show ?thesis by (rule that)
  next
    case False
    then have "off = smod_ll i (plan_ops tb rs) * rs"
      using no by (simp add: next_offset_def bc)
    with i show ?thesis by (rule that)
  qed
  have v: "sint off = (sint xw mod (sint tb div sint rs)) * sint rs"
    unfolding off using R RT x by (rule offset_value)
  show ?thesis
    unfolding v using block_bounds [OF R RT, of "sint xw"] by simp
qed

lemma workload_in_range:
  "mo = plan_max_offset tb rs \<Longrightarrow> 0 < sint rs \<Longrightarrow> sint rs \<le> sint tb \<Longrightarrow> 0 \<le> sint i \<Longrightarrow>
   off \<in> set (read_offsets (fst (workload w m rs mo ops i st))) \<Longrightarrow>
   0 \<le> sint off \<and> sint off \<le> sint tb - sint rs \<and> sint off mod sint rs = 0"
proof (induction w m rs mo ops i st rule: workload.induct)
  case (1 w m rs mo ops i st)
  note mo = "1.prems"(1) and R = "1.prems"(2) and RT = "1.prems"(3) and i = "1.prems"(4)
    and mem = "1.prems"(5)
  show ?case
  proof (cases "i <s ops")
    case False
    then show ?thesis using mem by (simp add: workload_stop read_offsets_def)
  next
    case True
    obtain o1 st' where no: "next_offset w m rs mo i st = (o1, st')"
      by (cases "next_offset w m rs mo i st")
    have first: "0 \<le> sint o1 \<and> sint o1 \<le> sint tb - sint rs \<and> sint o1 mod sint rs = 0"
      using R RT i no [unfolded mo] by (rule next_offset_in_range)
    show ?thesis
    proof (cases "sys_pread w (sint i) rs o1")
      case (Inl e)
      then have "off = o1"
        using mem by (simp add: workload_fail [OF True no] read_offsets_def)
      then show ?thesis using first by simp
    next
      case (Inr n)
      have i': "0 \<le> sint (i + 1)" using i by (simp add: loop_counter_succ [OF True])
      from mem have "off = o1 \<or>
          off \<in> set (read_offsets (fst (workload w m rs mo ops (i + 1) st')))"
        by (simp add: workload_step [OF True no Inr] read_offsets_def)
      then show ?thesis
      proof
        assume "off = o1"
        then show ?thesis using first by simp
      next
        assume "off \<in> set (read_offsets (fst (workload w m rs mo ops (i + 1) st')))"
        with "1.IH" [OF True no [symmetric] Inr mo R RT i'] show ?thesis .
      qed
    qed
  qed
qed

text \<open>In sequential mode the offsets follow the loop counter.\<close>

lemma workload_seq:
  "\<not> m \<Longrightarrow>
   read_offsets (fst (workload w m rs mo ops i st))
     = map (\<lambda>j. smod_ll (word_of_int j) (block_count mo rs) * rs)
         [sint i .. sint i + int (length (fst (workload w m rs mo ops i st))) - 1]"
proof (induction w m rs mo ops i st rule: workload.induct)
  case (1 w m rs mo ops i st)
  note seq = "1.prems"
  show ?case
  proof (cases "i <s ops")
    case False
    then show ?thesis by (simp add: workload_stop read_offsets_def)
  next
    case True
    have no: "next_offset w m rs mo i st = (smod_ll i (block_count mo rs) * rs, st)"
      using seq by (simp add: next_offset_def)
    let ?off = "smod_ll i (block_count mo rs) * rs"
    show ?thesis
    proof (cases "sys_pread w (sint i) rs ?off")
      case (Inl e)
      then show ?thesis
        by (simp add: workload_fail [OF True no] read_offsets_def)
    next
      case (Inr n)
      let ?rest = "fst (workload w m rs mo ops (i + 1) st)"
      have up: "[sint i .. sint i + int (length ?rest)]
                  = sint i # [sint i + 1 .. sint i + int (length ?rest)]"
        by (rule upto_rec1) simp
      from "1.IH" [OF True no [symmetric] Inr seq] show ?thesis
        by (simp add: workload_step [OF True no Inr] read_offsets_def
            loop_counter_succ [OF True] up)
    qed
  qed
qed

text \<open>
  Two complete loops over the same plan that start the same generator in the same state
  issue the same reads, whatever else differs between their environments.
\<close>

lemma workload_same_generator:
  "lib_rand w = lib_rand w' \<Longrightarrow>
   snd (workload w m rs mo ops i st) = None \<Longrightarrow>
   snd (workload w' m rs mo ops i st) = None \<Longrightarrow>
   fst (workload w m rs mo ops i st) = fst (workload w' m rs mo ops i st)"
proof (induction w m rs mo ops i st rule: workload.induct)
  case (1 w m rs mo ops i st)
  note gen = "1.prems"(1) and ok = "1.prems"(2) and ok' = "1.prems"(3)
  show ?case
  proof (cases "i <s ops")
    case False
    then show ?thesis by (simp add: workload_stop)
  next
    case True
    obtain off st' where no: "next_offset w m rs mo i st = (off, st')"
      by (cases "next_offset w m rs mo i st")
    have "next_offset w' m rs mo i st = next_offset w m rs mo i st"
      unfolding next_offset_def gen ..
    with no have no': "next_offset w' m rs mo i st = (off, st')" by simp
    obtain n where pr: "sys_pread w (sint i) rs off = Inr n"
      using ok by (cases "sys_pread w (sint i) rs off") (simp_all add: workload_fail [OF True no])
    obtain n' where pr': "sys_pread w' (sint i) rs off = Inr n'"
      using ok' by (cases "sys_pread w' (sint i) rs off") (simp_all add: workload_fail [OF True no'])
    have "snd (workload w m rs mo ops (i + 1) st') = None"
      using ok by (simp add: workload_step [OF True no pr])
    moreover have "snd (workload w' m rs mo ops (i + 1) st') = None"
      using ok' by (simp add: workload_step [OF True no' pr'])
    ultimately have "fst (workload w m rs mo ops (i + 1) st')
        = fst (workload w' m rs mo ops (i + 1) st')"
      by (rule "1.IH" [OF True no [symmetric] pr gen])
    then show ?thesis
      by (simp add: workload_step [OF True no pr] workload_step [OF True no' pr'])
  qed
qed

section \<open>The program as a whole\<close>

lemma reads_append: "reads (xs @ ys) = reads xs @ reads ys"
  by (induction xs rule: reads.induct) simp_all

text \<open>A run that exits with status 0 has passed every check and completed the loop.\<close>

lemma run_exit_0:
  assumes "exit_code (run w prog c) = 0"
  obtains p m fsz where "file_path c = Some p" and "mode c = Some m"
    and "m = ''rand'' \<or> m = ''seq''"
    and "record_size c \<noteq> 0" and "\<not> total_bytes c \<le>s 0"
    and "sys_open w p = None" and "sys_fstat w p = Inr fsz"
    and "\<not> fsz <s total_bytes c"
    and "\<not> plan_ops (total_bytes c) (record_size c) \<le>s 0"
    and "snd (workload w (m = ''rand'') (record_size c)
               (plan_max_offset (total_bytes c) (record_size c))
               (plan_ops (total_bytes c) (record_size c)) 0 (lib_srand w (seed c))) = None"
    and "run w prog c = success ([Open p, Fstat]
            @ fst (workload w (m = ''rand'') (record_size c)
               (plan_max_offset (total_bytes c) (record_size c))
               (plan_ops (total_bytes c) (record_size c)) 0 (lib_srand w (seed c)))
            @ [Close])"
  using assms unfolding run_def failure_def
  by (auto split: option.splits sum.splits prod.splits if_splits)

text \<open>Reads are issued by the loop only, and the loop is entered only under a checked plan.\<close>

lemma run_reads:
  "reads (io_trace (run w prog c)) = [] \<or>
   (\<exists>m. mode c = Some m \<and> record_size c \<noteq> 0 \<and> \<not> total_bytes c \<le>s 0
      \<and> \<not> plan_ops (total_bytes c) (record_size c) \<le>s 0
      \<and> reads (io_trace (run w prog c))
          = reads (fst (workload w (m = ''rand'') (record_size c)
               (plan_max_offset (total_bytes c) (record_size c))
               (plan_ops (total_bytes c) (record_size c)) 0 (lib_srand w (seed c)))))"
  unfolding run_def failure_def success_def
  by (auto simp: reads_append split: option.splits sum.splits prod.splits)

lemma run_status:
  "stdout_log (run w prog c) = [] \<and>
   (exit_code (run w prog c) = 0 \<and> stderr_log (run w prog c) = []
    \<or> exit_code (run w prog c) = 1 \<and> stderr_log (run w prog c) \<noteq> [])"
  unfolding run_def failure_def success_def
  by (auto split: option.splits sum.splits prod.splits)

lemma workload_length_le:
  "int (length (fst (workload w m rs mo ops i st))) \<le> max 0 (sint ops - sint i)"
proof (induction w m rs mo ops i st rule: workload.induct)
  case (1 w m rs mo ops i st)
  show ?case
  proof (cases "i <s ops")
    case False
    then show ?thesis by (simp add: workload_stop)
  next
    case True
    obtain off st' where no: "next_offset w m rs mo i st = (off, st')"
      by (cases "next_offset w m rs mo i st")
    show ?thesis
    proof (cases "sys_pread w (sint i) rs off")
      case (Inl e)
      then show ?thesis
        using True by (simp add: workload_fail [OF True no] word_sless_alt)
    next
      case (Inr n)
      from "1.IH" [OF True no [symmetric] Inr] True show ?thesis
        by (simp add: workload_step [OF True no Inr] loop_counter_succ [OF True] word_sless_alt)
    qed
  qed
qed

text \<open>
  Two loops over the same plan that start the same generator in the same state agree on
  every read that both issue, also when one of them is cut short by a failed read.
\<close>

lemma workload_agree:
  "lib_rand w = lib_rand w' \<Longrightarrow>
   k < length (fst (workload w m rs mo ops i st)) \<Longrightarrow>
   k < length (fst (workload w' m rs mo ops i st)) \<Longrightarrow>
   fst (workload w m rs mo ops i st) ! k = fst (workload w' m rs mo ops i st) ! k"
proof (induction w m rs mo ops i st arbitrary: k rule: workload.induct)
  case (1 w m rs mo ops i st)
  note gen = "1.prems"(1) and k = "1.prems"(2) and k' = "1.prems"(3)
  have True: "i <s ops"
  proof (rule ccontr)
    assume "\<not> i <s ops"
    then show False using k by (simp add: workload_stop)
  qed
  obtain off st' where no: "next_offset w m rs mo i st = (off, st')"
    by (cases "next_offset w m rs mo i st")
  have "next_offset w' m rs mo i st = next_offset w m rs mo i st"
    unfolding next_offset_def gen ..
  with no have no': "next_offset w' m rs mo i st = (off, st')" by simp
  show ?case
  proof (cases k)
    case 0
    have "fst (workload w m rs mo ops i st) ! 0 = Pread rs off"
      by (cases "sys_pread w (sint i) rs off")
         (simp_all add: workload_fail [OF True no] workload_step [OF True no])
    moreover have "fst (workload w' m rs mo ops i st) ! 0 = Pread rs off"
      by (cases "sys_pread w' (sint i) rs off")
         (simp_all add: workload_fail [OF True no'] workload_step [OF True no'])
    ultimately show ?thesis using 0 by simp
  next
    case (Suc j)
    obtain n where pr: "sys_pread w (sint i) rs off = Inr n"
      using k Suc by (cases "sys_pread w (sint i) rs off") (simp_all add: workload_fail [OF True no])
    obtain n' where pr': "sys_pread w' (sint i) rs off = Inr n'"
      using k' Suc
      by (cases "sys_pread w' (sint i) rs off") (simp_all add: workload_fail [OF True no'])
    have "j < length (fst (workload w m rs mo ops (i + 1) st'))"
      using k Suc by (simp add: workload_step [OF True no pr])
    moreover have "j < length (fst (workload w' m rs mo ops (i + 1) st'))"
      using k' Suc by (simp add: workload_step [OF True no' pr'])
    ultimately have "fst (workload w m rs mo ops (i + 1) st') ! j
        = fst (workload w' m rs mo ops (i + 1) st') ! j"
      by (rule "1.IH" [OF True no [symmetric] pr gen])
    then show ?thesis
      using Suc by (simp add: workload_step [OF True no pr] workload_step [OF True no' pr'])
  qed
qed

lemma workload_events:
  "fst (workload w m rs mo ops i st)
     = map (\<lambda>r. Pread (fst r) (snd r)) (reads (fst (workload w m rs mo ops i st)))"
proof (induction w m rs mo ops i st rule: workload.induct)
  case (1 w m rs mo ops i st)
  show ?case
  proof (cases "i <s ops")
    case False
    then show ?thesis by (simp add: workload_stop)
  next
    case True
    obtain off st' where no: "next_offset w m rs mo i st = (off, st')"
      by (cases "next_offset w m rs mo i st")
    show ?thesis
    proof (cases "sys_pread w (sint i) rs off")
      case (Inl e)
      then show ?thesis by (simp add: workload_fail [OF True no])
    next
      case (Inr n)
      from "1.IH" [OF True no [symmetric] Inr] show ?thesis
        by (simp add: workload_step [OF True no Inr])
    qed
  qed
qed

lemma workload_reads_agree:
  assumes gen: "lib_rand w = lib_rand w'"
    and k: "k < length (reads (fst (workload w m rs mo ops i st)))"
    and k': "k < length (reads (fst (workload w' m rs mo ops i st)))"
  shows "reads (fst (workload w m rs mo ops i st)) ! k
       = reads (fst (workload w' m rs mo ops i st)) ! k"
proof -
  let ?e = "fst (workload w m rs mo ops i st)" and ?e' = "fst (workload w' m rs mo ops i st)"
  let ?pr = "\<lambda>r :: size_t \<times> off_t. Pread (fst r) (snd r)"
  have ev: "?e = map ?pr (reads ?e)" and ev': "?e' = map ?pr (reads ?e')"
    by (rule workload_events)+
  have "length ?e = length (map ?pr (reads ?e))"
    using ev by (rule arg_cong)
  then have len: "length ?e = length (reads ?e)" by (simp only: length_map)
  have "length ?e' = length (map ?pr (reads ?e'))"
    using ev' by (rule arg_cong)
  then have len': "length ?e' = length (reads ?e')" by (simp only: length_map)
  have agree: "?e ! k = ?e' ! k"
    using gen k k' unfolding len [symmetric] len' [symmetric] by (rule workload_agree)
  have "?e ! k = map ?pr (reads ?e) ! k"
    using ev by (rule arg_cong)
  then have nth: "?e ! k = ?pr (reads ?e ! k)"
    using k by (simp only: nth_map)
  have "?e' ! k = map ?pr (reads ?e') ! k"
    using ev' by (rule arg_cong)
  then have nth': "?e' ! k = ?pr (reads ?e' ! k)"
    using k' by (simp only: nth_map)
  from agree have "?pr (reads ?e ! k) = ?pr (reads ?e' ! k)"
    unfolding nth nth' .
  then show ?thesis by (simp add: prod_eq_iff)
qed

text \<open>The offsets of a sequential run, complete or cut short, one by one.\<close>

lemma run_seq_nth:
  assumes seq: "mode c = Some ''seq''"
    and i: "i < length (read_offsets (io_trace (run w prog c)))"
  shows "sint (read_offsets (io_trace (run w prog c)) ! i)
           = (int i mod (sint (total_bytes c) div sint (record_size c))) * sint (record_size c)"
    and "0 < sint (record_size c)" and "sint (record_size c) \<le> sint (total_bytes c)"
    and "uint (record_size c) = sint (record_size c)"
    and "int i < sint (total_bytes c) div sint (record_size c)"
proof -
  let ?rs = "record_size c" and ?tb = "total_bytes c"
  let ?st = "lib_srand w (seed c)"
  let ?q = "sint ?tb div sint ?rs"
  from i have "reads (io_trace (run w prog c)) \<noteq> []"
    by (auto simp: read_offsets_def)
  with run_reads [of w prog c] obtain m where m: "mode c = Some m"
    and rs: "?rs \<noteq> 0" and tb: "\<not> ?tb \<le>s 0" and ops: "\<not> plan_ops ?tb ?rs \<le>s 0"
    and rd: "reads (io_trace (run w prog c))
          = reads (fst (workload w (m = ''rand'') ?rs (plan_max_offset ?tb ?rs)
               (plan_ops ?tb ?rs) 0 ?st))"
    by blast
  have mseq: "(m = ''rand'') = False" using m seq by auto
  let ?evs = "fst (workload w False ?rs (plan_max_offset ?tb ?rs) (plan_ops ?tb ?rs) 0 ?st)"
  note plan = plan_int [OF rs tb ops]
  show "0 < sint ?rs" and "sint ?rs \<le> sint ?tb" and "uint ?rs = sint ?rs"
    by (rule plan)+
  have T: "sint ?tb < 2 ^ 63" using sint_lt [of ?tb] by simp
  have qT: "?q \<le> sint ?tb" using plan(1,2) by (simp add: int_div_le_self)
  have bc: "block_count (plan_max_offset ?tb ?rs) ?rs = plan_ops ?tb ?rs"
    using plan(1,2) by (rule block_count_eq_ops)
  have offs: "read_offsets (io_trace (run w prog c)) = read_offsets ?evs"
    using rd unfolding mseq by (simp add: read_offsets_def)
  have len: "length (read_offsets ?evs) = length ?evs"
    using workload_reads [of w False ?rs "plan_max_offset ?tb ?rs" "plan_ops ?tb ?rs" 0 ?st]
    by simp
  have "int (length ?evs) \<le> max 0 (sint (plan_ops ?tb ?rs) - sint (0 :: 64 word))"
    by (rule workload_length_le)
  then have le: "int (length ?evs) \<le> ?q" using plan ops by (simp add: word_sle_eq)
  have ilt: "i < length ?evs" using i offs len by simp
  then show iq: "int i < ?q" using le by simp
  have up: "[0 .. int (length ?evs) - 1] ! i = int i"
    using ilt nth_upto [of 0 i "int (length ?evs) - 1"] by simp
  have "read_offsets ?evs
      = map (\<lambda>j. smod_ll (word_of_int j) (plan_ops ?tb ?rs) * ?rs) [0 .. int (length ?evs) - 1]"
    using workload_seq [of False w ?rs "plan_max_offset ?tb ?rs" "plan_ops ?tb ?rs" 0 ?st]
    by (simp add: bc)
  then have "read_offsets ?evs ! i
      = map (\<lambda>j. smod_ll (word_of_int j) (plan_ops ?tb ?rs) * ?rs) [0 .. int (length ?evs) - 1] ! i"
    by (rule arg_cong)
  also have "\<dots> = smod_ll (word_of_int (int i)) (plan_ops ?tb ?rs) * ?rs"
    using ilt by (simp add: up)
  finally have nth: "read_offsets (io_trace (run w prog c)) ! i
      = smod_ll (word_of_int (int i)) (plan_ops ?tb ?rs) * ?rs"
    unfolding offs .
  have "int i < 2 ^ 63" using iq qT T by linarith
  then have si: "sint (word_of_int (int i) :: 64 word) = int i"
    by (intro sint_word_of_int_64) linarith+
  have nn: "0 \<le> sint (word_of_int (int i) :: 64 word)"
    unfolding si by simp
  have "sint (smod_ll (word_of_int (int i)) (plan_ops ?tb ?rs) * ?rs)
        = (sint (word_of_int (int i) :: 64 word) mod ?q) * sint ?rs"
    using plan(1,2) nn by (rule offset_value)
  then show "sint (read_offsets (io_trace (run w prog c)) ! i) = (int i mod ?q) * sint ?rs"
    unfolding nth si .
qed

text \<open>The reads of two random runs on the same generator and plan, one by one.\<close>

lemma run_rand_nth:
  assumes "mode c = Some ''rand''" and "mode c2 = Some ''rand''"
    and "seed c2 = seed c" and "record_size c2 = record_size c"
    and "total_bytes c2 = total_bytes c"
    and "lib_srand w2 = lib_srand w" and gen: "lib_rand w2 = lib_rand w"
    and i: "i < length (reads (io_trace (run w prog c)))"
    and i2: "i < length (reads (io_trace (run w2 prog2 c2)))"
  shows "reads (io_trace (run w2 prog2 c2)) ! i = reads (io_trace (run w prog c)) ! i"
proof -
  let ?rs = "record_size c" and ?tb = "total_bytes c"
  let ?st = "lib_srand w (seed c)"
  from i have "reads (io_trace (run w prog c)) \<noteq> []" by auto
  with run_reads [of w prog c] obtain m where m: "mode c = Some m"
    and rd: "reads (io_trace (run w prog c))
          = reads (fst (workload w (m = ''rand'') ?rs (plan_max_offset ?tb ?rs)
               (plan_ops ?tb ?rs) 0 ?st))"
    by blast
  from i2 have "reads (io_trace (run w2 prog2 c2)) \<noteq> []" by auto
  with run_reads [of w2 prog2 c2] obtain m2 where m2: "mode c2 = Some m2"
    and rd2: "reads (io_trace (run w2 prog2 c2))
          = reads (fst (workload w2 (m2 = ''rand'') (record_size c2)
               (plan_max_offset (total_bytes c2) (record_size c2))
               (plan_ops (total_bytes c2) (record_size c2)) 0 (lib_srand w2 (seed c2))))"
    by blast
  have mr: "(m = ''rand'') = True" "(m2 = ''rand'') = True"
    using m m2 assms(1,2) by auto
  note same = assms(3,4,5,6)
  note rd' = rd [unfolded mr] and rd2' = rd2 [unfolded mr same]
  show ?thesis
    unfolding rd' rd2'
    using gen i2 [unfolded rd2'] i [unfolded rd'] by (rule workload_reads_agree)
qed

lemma workload_seq_state:
  "\<not> m \<Longrightarrow> workload w m rs mo ops i st = workload w m rs mo ops i st2"
proof (induction w m rs mo ops i st rule: workload.induct)
  case (1 w m rs mo ops i st)
  note seq = "1.prems"
  show ?case
  proof (cases "i <s ops")
    case False
    then show ?thesis by (simp add: workload_stop)
  next
    case True
    let ?off = "smod_ll i (block_count mo rs) * rs"
    have no: "next_offset w m rs mo i st = (?off, st)"
      and no2: "next_offset w m rs mo i st2 = (?off, st2)"
      using seq by (simp_all add: next_offset_def)
    show ?thesis
    proof (cases "sys_pread w (sint i) rs ?off")
      case (Inl e)
      then show ?thesis
        by (simp add: workload_fail [OF True no] workload_fail [OF True no2])
    next
      case (Inr n)
      from "1.IH" [OF True no [symmetric] Inr seq] show ?thesis
        by (simp add: workload_step [OF True no Inr] workload_step [OF True no2 Inr])
    qed
  qed
qed

lemma run_seq_seed:
  assumes "mode c = Some ''seq''"
  shows "run w prog (c\<lparr>seed := s\<rparr>) = run w prog c"
proof -
  have "workload w False (record_size c) (plan_max_offset (total_bytes c) (record_size c))
          (plan_ops (total_bytes c) (record_size c)) 0 (lib_srand w s)
      = workload w False (record_size c) (plan_max_offset (total_bytes c) (record_size c))
          (plan_ops (total_bytes c) (record_size c)) 0 (lib_srand w (seed c))"
    by (rule workload_seq_state) simp
  then show ?thesis
    using assms by (simp add: run_def split: option.splits sum.splits)
qed

text \<open>The offsets of a complete sequential run, as numbers.\<close>

lemma run_seq_offsets:
  assumes seq: "mode c = Some ''seq''" and ok: "exit_code (run w prog c) = 0"
  shows "map sint (read_offsets (io_trace (run w prog c)))
         = map (\<lambda>i. (i mod (sint (total_bytes c) div sint (record_size c))) * sint (record_size c))
             [0 .. sint (total_bytes c) div sint (record_size c) - 1]"
proof -
  let ?rs = "record_size c" and ?tb = "total_bytes c"
  let ?st = "lib_srand w (seed c)"
  let ?q = "sint ?tb div sint ?rs"
  from ok obtain p m where m: "mode c = Some m"
    and rs: "?rs \<noteq> 0" and tb: "\<not> ?tb \<le>s 0"
    and ops: "\<not> plan_ops ?tb ?rs \<le>s 0"
    and fin: "snd (workload w (m = ''rand'') ?rs (plan_max_offset ?tb ?rs)
               (plan_ops ?tb ?rs) 0 ?st) = None"
    and run: "run w prog c = success ([Open p, Fstat]
            @ fst (workload w (m = ''rand'') ?rs (plan_max_offset ?tb ?rs)
               (plan_ops ?tb ?rs) 0 ?st) @ [Close])"
    by (rule run_exit_0)
  have mseq: "(m = ''rand'') = False" using m seq by auto
  let ?evs = "fst (workload w False ?rs (plan_max_offset ?tb ?rs) (plan_ops ?tb ?rs) 0 ?st)"
  note plan = plan_int [OF rs tb ops]
  have T: "sint ?tb < 2 ^ 63" using sint_lt [of ?tb] by simp
  have qT: "?q \<le> sint ?tb" using tb by (simp add: word_sle_eq int_div_le_self)
  have bc: "block_count (plan_max_offset ?tb ?rs) ?rs = plan_ops ?tb ?rs"
    using plan(1,2) by (rule block_count_eq_ops)
  have "int (length ?evs) = max 0 (sint (plan_ops ?tb ?rs) - sint (0 :: 64 word))"
    using fin [unfolded mseq] by (rule workload_length)
  then have len: "int (length ?evs) = ?q"
    using plan ops by (simp add: word_sle_eq)
  have "read_offsets (io_trace (run w prog c)) = read_offsets ?evs"
    unfolding run mseq by (simp add: success_def read_offsets_def reads_append)
  also have "\<dots> = map (\<lambda>j. smod_ll (word_of_int j) (plan_ops ?tb ?rs) * ?rs) [0 .. ?q - 1]"
    using workload_seq [of False w ?rs "plan_max_offset ?tb ?rs" "plan_ops ?tb ?rs" 0 ?st]
    by (simp add: bc len)
  finally have offs: "read_offsets (io_trace (run w prog c))
      = map (\<lambda>j. smod_ll (word_of_int j) (plan_ops ?tb ?rs) * ?rs) [0 .. ?q - 1]" .
  have "sint (smod_ll (word_of_int j) (plan_ops ?tb ?rs) * ?rs) = (j mod ?q) * sint ?rs"
    if "j \<in> set [0 .. ?q - 1]" for j
  proof -
    from that have j: "0 \<le> j" "j < 2 ^ 63" using qT T by simp_all
    then have sj: "sint (word_of_int j :: 64 word) = j"
      by (intro sint_word_of_int_64) linarith+
    have "sint (smod_ll (word_of_int j) (plan_ops ?tb ?rs) * ?rs)
        = (sint (word_of_int j :: 64 word) mod ?q) * sint ?rs"
      using plan(1,2) by (rule offset_value) (simp add: sj j)
    then show ?thesis by (simp add: sj)
  qed
  then show ?thesis unfolding offs by simp
qed

lemma sint_eq_uint_64:
  fixes w :: "64 word"
  assumes "uint w < 2 ^ 63"
  shows "sint w = uint w"
proof -
  have "- (2 ^ 63) \<le> uint w" by (rule order_trans [of _ 0]) simp_all
  then have "signed_take_bit 63 (uint w) = uint w"
    using assms by (rule signed_take_bit_int_eq_self)
  then show ?thesis by (simp add: sint_uint)
qed

lemma plan_ops_int:
  fixes tb rs :: "64 word"
  assumes R: "0 < sint rs" and RT: "sint rs \<le> sint tb"
  shows "sint (plan_ops tb rs) = sint tb div sint rs"
proof -
  have T: "sint tb < 2 ^ 63" using sint_lt [of tb] by simp
  have "0 \<le> sint tb div sint rs" using R RT by (simp add: pos_imp_zdiv_nonneg_iff)
  moreover have "sint tb div sint rs \<le> sint tb" using R RT by (simp add: int_div_le_self)
  moreover have "sint tb sdiv sint rs = sint tb div sint rs"
    using R RT by (simp add: sdiv_nonneg_pos)
  ultimately show ?thesis
    unfolding plan_ops_def sdiv_ll_def using T by (simp add: sint_word_of_int_64)
qed

lemma block_count_int:
  fixes T R :: int
  assumes "0 < R" and "R \<le> T"
  shows "(T - R) div R + 1 = T div R"
  using assms div_add_self2 [of R "T - R"] by simp

lemma run_exit_0_plan:
  assumes "exit_code (run w prog c) = 0"
  shows "0 < sint (record_size c)" and "sint (record_size c) \<le> sint (total_bytes c)"
    and "uint (record_size c) = sint (record_size c)"
proof -
  from assms have "record_size c \<noteq> 0 \<and> \<not> total_bytes c \<le>s 0
      \<and> \<not> plan_ops (total_bytes c) (record_size c) \<le>s 0"
    by (rule run_exit_0) simp
  then show "0 < sint (record_size c)" and "sint (record_size c) \<le> sint (total_bytes c)"
    and "uint (record_size c) = sint (record_size c)"
    using plan_int [of "record_size c" "total_bytes c"] by simp_all
qed

lemma strictly_increasing_multiples:
  fixes R :: int
  assumes "0 < R"
  shows "sorted_wrt (<) (map (\<lambda>i. i * R) [a .. b])"
proof -
  have "sorted_wrt (\<lambda>x y. x * R < y * R) [a .. b]"
    using assms by (intro sorted_wrt_mono_rel [OF _ sorted_wrt_upto]) simp
  then show ?thesis by (simp add: sorted_wrt_map)
qed

lemma plan_ops_degenerate:
  fixes tb rs :: "64 word"
  assumes T: "0 < sint tb" and RT: "sint tb < uint rs"
  shows "plan_ops tb rs \<le>s 0"
proof -
  have Tlt: "sint tb < 2 ^ 63" using sint_lt [of tb] by simp
  consider "0 < sint rs" | "sint rs < 0" | "sint rs = 0" by linarith
  then have "sint (plan_ops tb rs) \<le> 0"
  proof cases
    case 1
    then have "uint rs = sint rs" by (simp add: uint_eq_sint_64)
    then have "sint tb sdiv sint rs = 0"
      using T RT 1 by (simp add: sdiv_nonneg_pos div_pos_pos_trivial)
    then show ?thesis by (simp add: plan_ops_def sdiv_ll_def)
  next
    case 2
    from sdiv_pos_neg [OF T 2] Tlt
    have "sint (word_of_int (sint tb sdiv sint rs) :: 64 word) = sint tb sdiv sint rs"
      by (intro sint_word_of_int_64) linarith+
    then show ?thesis using sdiv_pos_neg(1) [OF T 2] by (simp add: plan_ops_def sdiv_ll_def)
  next
    case 3
    then show ?thesis by (simp add: plan_ops_def sdiv_ll_def)
  qed
  then show ?thesis by (simp add: word_sle_eq)
qed

subsection \<open>The argument loop\<close>

lemma parse_args_flag:
  assumes "a \<in> set known_flags"
  shows "\<exists>c'. parse_args (a # v # rest) c = parse_args rest c'"
proof -
  from assms consider "a = ''--file''" | "a = ''--mode''" | "a = ''--record-size''"
    | "a = ''--total-bytes''" | "a = ''--seed''"
    unfolding known_flags_def by fastforce
  then show ?thesis
  proof cases
    case 1
    then have "parse_args (a # v # rest) c = parse_args rest (c\<lparr>file_path := Some v\<rparr>)"
      by simp
    then show ?thesis ..
  next
    case 2
    then have "parse_args (a # v # rest) c = parse_args rest (c\<lparr>mode := Some v\<rparr>)"
      by simp
    then show ?thesis ..
  next
    case 3
    then have "parse_args (a # v # rest) c = parse_args rest (c\<lparr>record_size := strtoull v\<rparr>)"
      by simp
    then show ?thesis ..
  next
    case 4
    then have "parse_args (a # v # rest) c = parse_args rest (c\<lparr>total_bytes := strtoll v\<rparr>)"
      by simp
    then show ?thesis ..
  next
    case 5
    then have "parse_args (a # v # rest) c = parse_args rest (c\<lparr>seed := ucast (strtoul v)\<rparr>)"
      by simp
    then show ?thesis ..
  qed
qed

lemma parse_args_pairs:
  "even (length pre) \<Longrightarrow> \<forall>k < length pre. even k \<longrightarrow> pre ! k \<in> set known_flags \<Longrightarrow>
   \<exists>c'. parse_args (pre @ rest) c = parse_args rest c'"
proof (induction pre arbitrary: c rule: induct_list012)
  case 1
  show ?case by auto
next
  case (2 x)
  then show ?case by simp
next
  case (3 x y zs)
  have "x \<in> set known_flags" using "3.prems"(2) by auto
  then obtain c1 where c1: "parse_args (x # y # (zs @ rest)) c = parse_args (zs @ rest) c1"
    using parse_args_flag by blast
  have "even (length zs)" using "3.prems"(1) by simp
  moreover have "\<forall>k < length zs. even k \<longrightarrow> zs ! k \<in> set known_flags"
  proof (intro allI impI)
    fix k assume "k < length zs" and "even k"
    then have "Suc (Suc k) < length (x # y # zs)" and "even (Suc (Suc k))" by simp_all
    with "3.prems"(2) have "(x # y # zs) ! Suc (Suc k) \<in> set known_flags" by blast
    then show "zs ! k \<in> set known_flags" by simp
  qed
  ultimately obtain c2 where "parse_args (zs @ rest) c1 = parse_args rest c2"
    using "3.IH"(1) by blast
  with c1 show ?case by auto
qed

lemma parse_args_reject:
  assumes "a \<notin> set known_flags \<or> rest = []"
  shows "parse_args (a # rest) c = Inl a"
  using assms by (cases rest) (auto simp: known_flags_def)

text \<open>
  The loop ends without a diagnostic exactly when every read it issued succeeded; the
  \<open>k\<close>-th read of the loop started at \<open>i\<close> is the call with index \<open>i + k\<close>.
\<close>

lemma workload_ok_iff:
  "snd (workload w m rs mo ops i st) = None \<longleftrightarrow>
   (\<forall>k < length (reads (fst (workload w m rs mo ops i st))).
      \<exists>n. sys_pread w (sint i + int k)
             (fst (reads (fst (workload w m rs mo ops i st)) ! k))
             (snd (reads (fst (workload w m rs mo ops i st)) ! k)) = Inr n)"
proof (induction w m rs mo ops i st rule: workload.induct)
  case (1 w m rs mo ops i st)
  show ?case
  proof (cases "i <s ops")
    case False
    then show ?thesis by (simp add: workload_stop)
  next
    case True
    obtain off st' where no: "next_offset w m rs mo i st = (off, st')"
      by (cases "next_offset w m rs mo i st")
    show ?thesis
    proof (cases "sys_pread w (sint i) rs off")
      case (Inl e)
      then show ?thesis by (simp add: workload_fail [OF True no])
    next
      case (Inr n)
      let ?rest = "reads (fst (workload w m rs mo ops (i + 1) st'))"
      have shift: "sint (i + 1) + int k = sint i + int (Suc k)" for k
        by (simp add: loop_counter_succ [OF True])
      have "snd (workload w m rs mo ops i st) = None
          \<longleftrightarrow> snd (workload w m rs mo ops (i + 1) st') = None"
        by (simp add: workload_step [OF True no Inr])
      also have "\<dots> \<longleftrightarrow> (\<forall>k < length ?rest.
          \<exists>n. sys_pread w (sint i + int (Suc k)) (fst (?rest ! k)) (snd (?rest ! k)) = Inr n)"
        unfolding "1.IH" [OF True no [symmetric] Inr] shift ..
      also have "\<dots> \<longleftrightarrow> (\<forall>k < length ((rs, off) # ?rest).
          \<exists>n. sys_pread w (sint i + int k) (fst (((rs, off) # ?rest) ! k))
                 (snd (((rs, off) # ?rest) ! k)) = Inr n)"
        using Inr by (simp add: All_less_Suc2)
      finally show ?thesis
        by (simp add: workload_step [OF True no Inr])
    qed
  qed
qed

text \<open>The run once every check before the loop has passed.\<close>

lemma run_loop:
  assumes "file_path c = Some p" and "mode c = Some m" and "m = ''rand'' \<or> m = ''seq''"
    and "record_size c \<noteq> 0" and "\<not> total_bytes c \<le>s 0"
    and "sys_open w p = None" and "sys_fstat w p = Inr fsz"
    and "\<not> fsz \<le>s 0" and "\<not> fsz <s total_bytes c"
    and "\<not> plan_ops (total_bytes c) (record_size c) \<le>s 0"
    and "lib_malloc w (record_size c)"
  shows "reads (io_trace (run w prog c))
           = reads (fst (workload w (m = ''rand'') (record_size c)
               (plan_max_offset (total_bytes c) (record_size c))
               (plan_ops (total_bytes c) (record_size c)) 0 (lib_srand w (seed c))))"
    and "exit_code (run w prog c) = 0 \<longleftrightarrow>
           snd (workload w (m = ''rand'') (record_size c)
               (plan_max_offset (total_bytes c) (record_size c))
               (plan_ops (total_bytes c) (record_size c)) 0 (lib_srand w (seed c))) = None"
proof -
  let ?wl = "workload w (m = ''rand'') (record_size c)
               (plan_max_offset (total_bytes c) (record_size c))
               (plan_ops (total_bytes c) (record_size c)) 0 (lib_srand w (seed c))"
  have run: "run w prog c =
      (case ?wl of
         (evs, Some d) \<Rightarrow> failure [d] ([Open p, Fstat] @ evs @ [Close])
       | (evs, None) \<Rightarrow> success ([Open p, Fstat] @ evs @ [Close]))"
    using assms by (simp add: run_def)
  show "reads (io_trace (run w prog c)) = reads (fst ?wl)"
    unfolding run
    by (cases ?wl; cases "snd ?wl") (simp_all add: failure_def success_def reads_append)
  show "exit_code (run w prog c) = 0 \<longleftrightarrow> snd ?wl = None"
    unfolding run
    by (cases ?wl; cases "snd ?wl") (simp_all add: failure_def success_def)
qed

lemma run_exit_0_checks:
  assumes "exit_code (run w prog c) = 0"
  obtains p m fsz where "file_path c = Some p" and "mode c = Some m"
    and "m = ''rand'' \<or> m = ''seq''"
    and "record_size c \<noteq> 0" and "\<not> total_bytes c \<le>s 0"
    and "sys_open w p = None" and "sys_fstat w p = Inr fsz"
    and "\<not> fsz \<le>s 0" and "\<not> fsz <s total_bytes c"
    and "\<not> plan_ops (total_bytes c) (record_size c) \<le>s 0"
    and "lib_malloc w (record_size c)"
  using assms unfolding run_def failure_def
  by (auto split: option.splits sum.splits prod.splits if_splits)

text \<open>
  Status 0, characterised: every check passes and every read that the run issued
  succeeded.
\<close>

lemma run_exit_0_iff:
  "exit_code (run w prog c) = 0 \<longleftrightarrow>
    (\<exists>p m fsz. file_path c = Some p \<and> mode c = Some m \<and> (m = ''rand'' \<or> m = ''seq'')
       \<and> record_size c \<noteq> 0 \<and> 0 < sint (total_bytes c)
       \<and> sys_open w p = None \<and> sys_fstat w p = Inr fsz
       \<and> 0 < sint fsz \<and> sint (total_bytes c) \<le> sint fsz
       \<and> uint (record_size c) \<le> sint (total_bytes c)
       \<and> lib_malloc w (record_size c)
       \<and> (\<forall>k < length (reads (io_trace (run w prog c))).
            \<exists>n. sys_pread w (int k) (fst (reads (io_trace (run w prog c)) ! k))
                   (snd (reads (io_trace (run w prog c)) ! k)) = Inr n))"
  (is "?lhs \<longleftrightarrow> ?rhs")
proof
  let ?rs = "record_size c" and ?tb = "total_bytes c"
  assume ok: ?lhs
  then obtain p m fsz where c: "file_path c = Some p" "mode c = Some m"
      "m = ''rand'' \<or> m = ''seq''" "?rs \<noteq> 0" "\<not> ?tb \<le>s 0"
      "sys_open w p = None" "sys_fstat w p = Inr fsz"
      "\<not> fsz \<le>s 0" "\<not> fsz <s ?tb" "\<not> plan_ops ?tb ?rs \<le>s 0" "lib_malloc w ?rs"
    by (rule run_exit_0_checks)
  note plan = plan_int [OF c(4,5,10)]
  note loop = run_loop [OF c, of prog]
  have fin: "snd (workload w (m = ''rand'') ?rs (plan_max_offset ?tb ?rs)
               (plan_ops ?tb ?rs) 0 (lib_srand w (seed c))) = None"
    using ok loop(2) by simp
  have rd: "\<forall>k < length (reads (io_trace (run w prog c))).
            \<exists>n. sys_pread w (int k) (fst (reads (io_trace (run w prog c)) ! k))
                   (snd (reads (io_trace (run w prog c)) ! k)) = Inr n"
    unfolding loop(1) using fin [unfolded workload_ok_iff] by simp
  have "0 < sint ?tb" "0 < sint fsz" "sint ?tb \<le> sint fsz" "uint ?rs \<le> sint ?tb"
    using c(5,8,9) plan by (simp_all add: word_sle_eq word_sless_alt)
  with c rd show ?rhs by blast
next
  let ?rs = "record_size c" and ?tb = "total_bytes c"
  assume ?rhs
  then obtain p m fsz where h: "file_path c = Some p" "mode c = Some m"
      "m = ''rand'' \<or> m = ''seq''" "?rs \<noteq> 0" "0 < sint ?tb"
      "sys_open w p = None" "sys_fstat w p = Inr fsz"
      "0 < sint fsz" "sint ?tb \<le> sint fsz" "uint ?rs \<le> sint ?tb" "lib_malloc w ?rs"
    and rd: "\<forall>k < length (reads (io_trace (run w prog c))).
            \<exists>n. sys_pread w (int k) (fst (reads (io_trace (run w prog c)) ! k))
                   (snd (reads (io_trace (run w prog c)) ! k)) = Inr n"
    by blast
  have "uint ?rs < 2 ^ 63" using h(10) sint_lt [of ?tb] by simp
  then have u: "sint ?rs = uint ?rs" by (rule sint_eq_uint_64)
  have "uint ?rs \<noteq> 0" using h(4) by (simp add: unsigned_eq_0_iff)
  moreover have "0 \<le> uint ?rs" by (rule uint_nonnegative)
  ultimately have R: "0 < sint ?rs" using u by linarith
  have RT: "sint ?rs \<le> sint ?tb" using h(10) u by simp
  have "0 < sint ?tb div sint ?rs" using R RT by (simp add: pos_imp_zdiv_pos_iff)
  then have ops: "\<not> plan_ops ?tb ?rs \<le>s 0"
    using plan_ops_int [OF R RT] by (simp add: word_sle_eq)
  have tb: "\<not> ?tb \<le>s 0" and f1: "\<not> fsz \<le>s 0" and f2: "\<not> fsz <s ?tb"
    using h(5,8,9) by (simp_all add: word_sle_eq word_sless_alt)
  note loop = run_loop [OF h(1-4) tb h(6,7) f1 f2 ops h(11), of prog]
  have "snd (workload w (m = ''rand'') ?rs (plan_max_offset ?tb ?rs)
               (plan_ops ?tb ?rs) 0 (lib_srand w (seed c))) = None"
    unfolding workload_ok_iff using rd [unfolded loop(1)] by simp
  then show ?lhs using loop(2) by simp
qed

section \<open>Properties of the specification\<close>

text \<open>
  C1.  In every run, in either mode, each positioned read is a read of \<open>record_size\<close> bytes
  at an offset \<open>o\<close> with \<open>0 \<le> o \<le> total_bytes - record_size\<close> and
  \<open>o mod record_size = 0\<close>; the bytes read therefore lie within \<open>[0, total_bytes)\<close>.
  Here \<open>c\<close> is the configuration that the argument loop produced; a command line that the
  loop rejects issues no read at all.
\<close>

theorem C1_offsets_in_working_set:
  assumes "parse_args args init_config = Inr c"
    and "(n, off) \<in> set (reads (io_trace (main w prog args)))"
  shows "n = record_size c
       \<and> 0 \<le> sint off
       \<and> sint off \<le> sint (total_bytes c) - uint (record_size c)
       \<and> sint off mod uint (record_size c) = 0
       \<and> sint off + uint n \<le> sint (total_bytes c)"
proof -
  let ?rs = "record_size c" and ?tb = "total_bytes c"
  have main: "main w prog args = run w prog c"
    using assms(1) by (simp add: main_def)
  from assms(2) have ne: "reads (io_trace (run w prog c)) \<noteq> []"
    unfolding main by auto
  with run_reads [of w prog c] obtain m where rs: "?rs \<noteq> 0" and tb: "\<not> ?tb \<le>s 0"
    and ops: "\<not> plan_ops ?tb ?rs \<le>s 0"
    and rd: "reads (io_trace (run w prog c))
          = reads (fst (workload w (m = ''rand'') ?rs (plan_max_offset ?tb ?rs)
               (plan_ops ?tb ?rs) 0 (lib_srand w (seed c))))"
    by blast
  let ?evs = "fst (workload w (m = ''rand'') ?rs (plan_max_offset ?tb ?rs)
               (plan_ops ?tb ?rs) 0 (lib_srand w (seed c)))"
  note plan = plan_int [OF rs tb ops]
  from assms(2) have "(n, off) \<in> set (map (\<lambda>off. (?rs, off)) (read_offsets ?evs))"
    unfolding main rd using workload_reads [of w "m = ''rand''" ?rs _ _ 0] by simp
  then have n: "n = ?rs" and mem: "off \<in> set (read_offsets ?evs)" by auto
  have "0 \<le> sint off \<and> sint off \<le> sint ?tb - sint ?rs \<and> sint off mod sint ?rs = 0"
    using refl plan(1) plan(2) _ mem by (rule workload_in_range) simp
  then show ?thesis using n plan(4) by simp
qed

theorem C1_offsets_in_working_set_witness:
  "parse_args [''--file'', ''data.bin'', ''--mode'', ''rand'', ''--record-size'', ''100'',
               ''--total-bytes'', ''1000'']
     init_config
     = Inr \<lparr>file_path = Some ''data.bin'', mode = Some ''rand'', record_size = 100,
            total_bytes = 1000, seed = 12345\<rparr>
   \<and> (100, 800) \<in> set (reads (io_trace (main (sample_world ''data.bin'' 1000) ''fs_bench''
         [''--file'', ''data.bin'', ''--mode'', ''rand'', ''--record-size'', ''100'',
          ''--total-bytes'', ''1000''])))
   \<and> sint (800 :: 64 word) \<le> sint (1000 :: 64 word) - uint (100 :: 64 word)
   \<and> sint (800 :: 64 word) mod uint (100 :: 64 word) = 0"
proof -
  let ?args = "[''--file'', ''data.bin'', ''--mode'', ''rand'', ''--record-size'', ''100'',
               ''--total-bytes'', ''1000'']"
  let ?c = "\<lparr>file_path = Some ''data.bin'', mode = Some ''rand'', record_size = 100,
            total_bytes = 1000, seed = 12345\<rparr>"
  have p: "parse_args ?args init_config = Inr ?c"
    by code_simp
  have r: "(100, 800) \<in> set (reads (io_trace (main (sample_world ''data.bin'' 1000) ''fs_bench'' ?args)))"
    by code_simp
  from C1_offsets_in_working_set [OF p r] p r show ?thesis by simp
qed

text \<open>
  C2.  A run that passes every check and in which no read fails (so that it exits with
  status 0) issues exactly \<open>op_count = total_bytes div record_size\<close> reads, each of
  \<open>record_size\<close> bytes; \<open>op_count\<close> is the value of the program's variable \<open>ops\<close>.
\<close>

theorem C2_exactly_op_count_reads:
  assumes "parse_args args init_config = Inr c"
    and "exit_code (main w prog args) = 0"
  shows "int (length (reads (io_trace (main w prog args))))
           = sint (total_bytes c) div uint (record_size c)
       \<and> sint (plan_ops (total_bytes c) (record_size c))
           = sint (total_bytes c) div uint (record_size c)
       \<and> (\<forall>r \<in> set (reads (io_trace (main w prog args))). fst r = record_size c)"
proof -
  let ?rs = "record_size c" and ?tb = "total_bytes c"
  let ?st = "lib_srand w (seed c)"
  have main: "main w prog args = run w prog c"
    using assms(1) by (simp add: main_def)
  from assms(2) [unfolded main] obtain p m where rs: "?rs \<noteq> 0" and tb: "\<not> ?tb \<le>s 0"
    and ops: "\<not> plan_ops ?tb ?rs \<le>s 0"
    and ok: "snd (workload w (m = ''rand'') ?rs (plan_max_offset ?tb ?rs)
               (plan_ops ?tb ?rs) 0 ?st) = None"
    and run: "run w prog c = success ([Open p, Fstat]
            @ fst (workload w (m = ''rand'') ?rs (plan_max_offset ?tb ?rs)
               (plan_ops ?tb ?rs) 0 ?st) @ [Close])"
    by (rule run_exit_0)
  let ?evs = "fst (workload w (m = ''rand'') ?rs (plan_max_offset ?tb ?rs) (plan_ops ?tb ?rs) 0 ?st)"
  note plan = plan_int [OF rs tb ops]
  have rd: "reads (io_trace (main w prog args)) = reads ?evs"
    unfolding main run by (simp add: success_def reads_append)
  have shape: "reads ?evs = map (\<lambda>off. (?rs, off)) (read_offsets ?evs)"
    and len: "length (read_offsets ?evs) = length ?evs"
    using workload_reads [of w "m = ''rand''" ?rs "plan_max_offset ?tb ?rs" "plan_ops ?tb ?rs" 0 ?st]
    by simp_all
  have "int (length ?evs) = max 0 (sint (plan_ops ?tb ?rs) - sint (0 :: 64 word))"
    using ok by (rule workload_length)
  also have "\<dots> = sint ?tb div uint ?rs"
    using plan ops by (simp add: word_sle_eq)
  finally have count: "int (length ?evs) = sint ?tb div uint ?rs" .
  have "int (length (reads (io_trace (main w prog args)))) = sint ?tb div uint ?rs"
    unfolding rd shape using len count by simp
  moreover have "sint (plan_ops ?tb ?rs) = sint ?tb div uint ?rs"
    using plan by simp
  moreover have "\<forall>r \<in> set (reads (io_trace (main w prog args))). fst r = ?rs"
    unfolding rd shape by simp
  ultimately show ?thesis by simp
qed

theorem C2_exactly_op_count_reads_witness:
  "exit_code (main (sample_world ''data.bin'' 1000) ''fs_bench''
      [''--file'', ''data.bin'', ''--mode'', ''seq'', ''--record-size'', ''300'',
       ''--total-bytes'', ''1000'']) = 0
   \<and> length (reads (io_trace (main (sample_world ''data.bin'' 1000) ''fs_bench''
      [''--file'', ''data.bin'', ''--mode'', ''seq'', ''--record-size'', ''300'',
       ''--total-bytes'', ''1000'']))) = 3
   \<and> sint (plan_ops 1000 300) = 3"
proof -
  let ?args = "[''--file'', ''data.bin'', ''--mode'', ''seq'', ''--record-size'', ''300'',
       ''--total-bytes'', ''1000'']"
  let ?c = "\<lparr>file_path = Some ''data.bin'', mode = Some ''seq'', record_size = 300,
            total_bytes = 1000, seed = 12345\<rparr>"
  have p: "parse_args ?args init_config = Inr ?c"
    by code_simp
  have e: "exit_code (main (sample_world ''data.bin'' 1000) ''fs_bench'' ?args) = 0"
    by code_simp
  from C2_exactly_op_count_reads [OF p e] e show ?thesis by simp
qed

text \<open>
  C3.  In sequential mode the \<open>i\<close>-th offset issued is \<open>(i mod block_count) * record_size\<close>
  with \<open>block_count = (total_bytes - record_size) div record_size + 1\<close>; this holds for every
  read of every run, also of one that a failed read cuts short.  A complete run issues
  these offsets for \<open>i = 0, \<dots>, op_count - 1\<close>.  The run does not depend on the seed: a
  command line whose configuration differs in the seed only has the same outcome, reads
  included.
\<close>

theorem C3_sequential_offsets:
  assumes "parse_args args init_config = Inr c" and "mode c = Some ''seq''"
  shows "(let R = uint (record_size c); T = sint (total_bytes c);
              bc = (T - R) div R + 1; op_count = T div R;
              offs = read_offsets (io_trace (main w prog args))
          in (\<forall>i < length offs. sint (offs ! i) = (int i mod bc) * R)
           \<and> (exit_code (main w prog args) = 0 \<longrightarrow>
                map sint offs = map (\<lambda>i. (i mod bc) * R) [0 .. op_count - 1])
           \<and> (\<forall>args2 c2. parse_args args2 init_config = Inr c2 \<and> c2 = c\<lparr>seed := seed c2\<rparr>
                \<longrightarrow> main w prog args2 = main w prog args))"
proof -
  let ?R = "uint (record_size c)" and ?T = "sint (total_bytes c)"
  let ?bc = "(?T - ?R) div ?R + 1"
  let ?offs = "read_offsets (io_trace (main w prog args))"
  have main: "main w prog args = run w prog c"
    using assms(1) by (simp add: main_def)
  have each: "\<forall>i < length ?offs. sint (?offs ! i) = (int i mod ?bc) * ?R"
  proof (intro allI impI)
    fix i assume "i < length ?offs"
    then have i: "i < length (read_offsets (io_trace (run w prog c)))"
      unfolding main .
    note nth = run_seq_nth [OF assms(2) i]
    have bc: "(sint (total_bytes c) - sint (record_size c)) div sint (record_size c) + 1
              = sint (total_bytes c) div sint (record_size c)"
      using nth(2,3) by (rule block_count_int)
    show "sint (?offs ! i) = (int i mod ?bc) * ?R"
      unfolding main nth(4) bc by (rule nth(1))
  qed
  have complete: "exit_code (main w prog args) = 0 \<longrightarrow>
            map sint ?offs = map (\<lambda>i. (i mod ?bc) * ?R) [0 .. ?T div ?R - 1]"
  proof
    assume ok: "exit_code (main w prog args) = 0"
    note plan = run_exit_0_plan [OF ok [unfolded main]]
    have bc: "(sint (total_bytes c) - sint (record_size c)) div sint (record_size c) + 1
              = sint (total_bytes c) div sint (record_size c)"
      using plan(1,2) by (rule block_count_int)
    show "map sint ?offs = map (\<lambda>i. (i mod ?bc) * ?R) [0 .. ?T div ?R - 1]"
      unfolding main plan(3) bc using assms(2) ok [unfolded main] by (rule run_seq_offsets)
  qed
  have seedless: "\<forall>args2 c2. parse_args args2 init_config = Inr c2 \<and> c2 = c\<lparr>seed := seed c2\<rparr>
            \<longrightarrow> main w prog args2 = main w prog args"
  proof (intro allI impI)
    fix args2 c2
    assume "parse_args args2 init_config = Inr c2 \<and> c2 = c\<lparr>seed := seed c2\<rparr>"
    then have "main w prog args2 = run w prog (c\<lparr>seed := seed c2\<rparr>)"
      by (simp add: main_def)
    also have "\<dots> = run w prog c" using assms(2) by (rule run_seq_seed)
    finally show "main w prog args2 = main w prog args" unfolding main .
  qed
  show ?thesis
    unfolding Let_def using each complete seedless by (intro conjI)
qed

theorem C3_sequential_offsets_witness:
  "exit_code (main (sample_world ''data.bin'' 1000) ''fs_bench''
      [''--file'', ''data.bin'', ''--mode'', ''seq'', ''--record-size'', ''100'',
       ''--total-bytes'', ''1000'']) = 0
   \<and> map sint (read_offsets (io_trace (main (sample_world ''data.bin'' 1000) ''fs_bench''
      [''--file'', ''data.bin'', ''--mode'', ''seq'', ''--record-size'', ''100'',
       ''--total-bytes'', ''1000''])))
     = [0, 100, 200, 300, 400, 500, 600, 700, 800, 900]
   \<and> main (sample_world ''data.bin'' 1000) ''fs_bench''
        [''--seed'', ''7'', ''--file'', ''data.bin'', ''--mode'', ''seq'',
         ''--record-size'', ''100'', ''--total-bytes'', ''1000'']
     = main (sample_world ''data.bin'' 1000) ''fs_bench''
        [''--file'', ''data.bin'', ''--mode'', ''seq'', ''--record-size'', ''100'',
         ''--total-bytes'', ''1000'']
   \<and> length (read_offsets (io_trace (main (faulty_world ''data.bin'' 1000) ''fs_bench''
      [''--file'', ''data.bin'', ''--mode'', ''seq'', ''--record-size'', ''100'',
       ''--total-bytes'', ''1000'']))) = 3
   \<and> sint (read_offsets (io_trace (main (faulty_world ''data.bin'' 1000) ''fs_bench''
      [''--file'', ''data.bin'', ''--mode'', ''seq'', ''--record-size'', ''100'',
       ''--total-bytes'', ''1000''])) ! 2) = 200"
proof -
  let ?args = "[''--file'', ''data.bin'', ''--mode'', ''seq'', ''--record-size'', ''100'',
       ''--total-bytes'', ''1000'']"
  let ?c = "\<lparr>file_path = Some ''data.bin'', mode = Some ''seq'', record_size = 100,
            total_bytes = 1000, seed = 12345\<rparr>"
  let ?c2 = "\<lparr>file_path = Some ''data.bin'', mode = Some ''seq'', record_size = 100,
            total_bytes = 1000, seed = 7\<rparr>"
  let ?w = "sample_world ''data.bin'' 1000" and ?f = "faulty_world ''data.bin'' 1000"
  have p: "parse_args ?args init_config = Inr ?c"
    by code_simp
  have p2: "parse_args (''--seed'' # ''7'' # ?args) init_config = Inr ?c2"
    by code_simp
  have m: "mode ?c = Some ''seq''" by simp
  have e: "exit_code (main ?w ''fs_bench'' ?args) = 0"
    by code_simp
  have l: "length (read_offsets (io_trace (main ?f ''fs_bench'' ?args))) = 3"
    by code_simp
  have u: "[0 .. 9] = [0, 1, 2, 3, 4, 5, 6, 7, 8, 9 :: int]"
    by code_simp
  have s: "?c2 = ?c\<lparr>seed := seed ?c2\<rparr>" by simp
  note inst = C3_sequential_offsets [OF p m, of ?w "''fs_bench''", unfolded Let_def]
  note cut = C3_sequential_offsets [OF p m, of ?f "''fs_bench''", unfolded Let_def]
  from inst [THEN conjunct2, THEN conjunct1, rule_format, OF e]
  have "map sint (read_offsets (io_trace (main ?w ''fs_bench'' ?args)))
     = [0, 100, 200, 300, 400, 500, 600, 700, 800, 900]"
    by (simp add: u)
  moreover from inst [THEN conjunct2, THEN conjunct2, rule_format, OF conjI [OF p2 s]]
  have "main ?w ''fs_bench'' (''--seed'' # ''7'' # ?args) = main ?w ''fs_bench'' ?args" .
  moreover from cut [THEN conjunct1, rule_format, of 2] l
  have "sint (read_offsets (io_trace (main ?f ''fs_bench'' ?args)) ! 2) = 200"
    by simp
  ultimately show ?thesis using e l by simp
qed

text \<open>
  C4.  In random mode, two runs whose configurations agree on the seed, the record size and
  the total size (hence on \<open>op_count\<close>), on the same generator, issue the same reads: the
  \<open>i\<close>-th read is the same whenever both runs issue one, and two complete runs issue the
  same sequence, whatever else differs (the program name, the file, its size, the amount
  each read returns).  The generator is seeded once, before the loop, and its state is
  threaded through the iterations.
\<close>

theorem C4_random_reproducible:
  assumes "parse_args args init_config = Inr c"
    and "parse_args args2 init_config = Inr c2"
    and "mode c = Some ''rand''" and "mode c2 = Some ''rand''"
    and "seed c2 = seed c" and "record_size c2 = record_size c"
    and "total_bytes c2 = total_bytes c"
    and "lib_srand w2 = lib_srand w" and "lib_rand w2 = lib_rand w"
  shows "(\<forall>i. i < length (reads (io_trace (main w prog args)))
              \<and> i < length (reads (io_trace (main w2 prog2 args2)))
            \<longrightarrow> reads (io_trace (main w2 prog2 args2)) ! i
                = reads (io_trace (main w prog args)) ! i)
       \<and> (exit_code (main w prog args) = 0 \<and> exit_code (main w2 prog2 args2) = 0
            \<longrightarrow> reads (io_trace (main w2 prog2 args2)) = reads (io_trace (main w prog args)))"
proof -
  let ?rs = "record_size c" and ?tb = "total_bytes c"
  let ?st = "lib_srand w (seed c)"
  have main: "main w prog args = run w prog c"
    using assms(1) by (simp add: main_def)
  have main2: "main w2 prog2 args2 = run w2 prog2 c2"
    using assms(2) by (simp add: main_def)
  have each: "\<forall>i. i < length (reads (io_trace (main w prog args)))
              \<and> i < length (reads (io_trace (main w2 prog2 args2)))
            \<longrightarrow> reads (io_trace (main w2 prog2 args2)) ! i
                = reads (io_trace (main w prog args)) ! i"
    unfolding main main2 using run_rand_nth [OF assms(3-9)] by blast
  have complete: "reads (io_trace (main w2 prog2 args2)) = reads (io_trace (main w prog args))"
    if ok: "exit_code (main w prog args) = 0 \<and> exit_code (main w2 prog2 args2) = 0"
  proof -
    from ok have e1: "exit_code (run w prog c) = 0" and e2: "exit_code (run w2 prog2 c2) = 0"
      unfolding main main2 by simp_all
    from e1 obtain p m where m: "mode c = Some m"
      and fin: "snd (workload w (m = ''rand'') ?rs (plan_max_offset ?tb ?rs)
               (plan_ops ?tb ?rs) 0 ?st) = None"
      and run: "run w prog c = success ([Open p, Fstat]
            @ fst (workload w (m = ''rand'') ?rs (plan_max_offset ?tb ?rs)
               (plan_ops ?tb ?rs) 0 ?st) @ [Close])"
      by (rule run_exit_0)
    from e2 obtain p2 m2 where m2: "mode c2 = Some m2"
      and fin2: "snd (workload w2 (m2 = ''rand'') (record_size c2)
               (plan_max_offset (total_bytes c2) (record_size c2))
               (plan_ops (total_bytes c2) (record_size c2)) 0 (lib_srand w2 (seed c2))) = None"
      and run2: "run w2 prog2 c2 = success ([Open p2, Fstat]
            @ fst (workload w2 (m2 = ''rand'') (record_size c2)
               (plan_max_offset (total_bytes c2) (record_size c2))
               (plan_ops (total_bytes c2) (record_size c2)) 0 (lib_srand w2 (seed c2)))
            @ [Close])"
      by (rule run_exit_0)
    have mr: "(m = ''rand'') = True" "(m2 = ''rand'') = True"
      using m m2 assms(3,4) by auto
    note same = assms(5,6,7,8)
    have "fst (workload w2 True ?rs (plan_max_offset ?tb ?rs) (plan_ops ?tb ?rs) 0 ?st)
        = fst (workload w True ?rs (plan_max_offset ?tb ?rs) (plan_ops ?tb ?rs) 0 ?st)"
      using assms(9) fin2 [unfolded mr same] fin [unfolded mr]
      by (rule workload_same_generator)
    then show ?thesis
      unfolding main main2 run run2 mr same by (simp add: success_def reads_append)
  qed
  from each complete show ?thesis by blast
qed

theorem C4_random_reproducible_witness:
  "exit_code (main (sample_world ''data.bin'' 1000) ''fs_bench''
      [''--file'', ''data.bin'', ''--mode'', ''rand'', ''--record-size'', ''100'',
       ''--total-bytes'', ''500'', ''--seed'', ''42'']) = 0
   \<and> exit_code (main (sample_world ''copy.bin'' 4096) ''bench2''
      [''--seed'', ''42'', ''--mode'', ''rand'', ''--file'', ''copy.bin'',
       ''--total-bytes'', ''500'', ''--record-size'', ''100'']) = 0
   \<and> reads (io_trace (main (sample_world ''copy.bin'' 4096) ''bench2''
      [''--seed'', ''42'', ''--mode'', ''rand'', ''--file'', ''copy.bin'',
       ''--total-bytes'', ''500'', ''--record-size'', ''100'']))
     = reads (io_trace (main (sample_world ''data.bin'' 1000) ''fs_bench''
      [''--file'', ''data.bin'', ''--mode'', ''rand'', ''--record-size'', ''100'',
       ''--total-bytes'', ''500'', ''--seed'', ''42'']))
   \<and> length (reads (io_trace (main (sample_world ''data.bin'' 1000) ''fs_bench''
      [''--file'', ''data.bin'', ''--mode'', ''rand'', ''--record-size'', ''100'',
       ''--total-bytes'', ''500'', ''--seed'', ''42'']))) = 5"
proof -
  let ?args = "[''--file'', ''data.bin'', ''--mode'', ''rand'', ''--record-size'', ''100'',
       ''--total-bytes'', ''500'', ''--seed'', ''42'']"
  let ?args2 = "[''--seed'', ''42'', ''--mode'', ''rand'', ''--file'', ''copy.bin'',
       ''--total-bytes'', ''500'', ''--record-size'', ''100'']"
  let ?c = "\<lparr>file_path = Some ''data.bin'', mode = Some ''rand'', record_size = 100,
            total_bytes = 500, seed = 42\<rparr>"
  let ?c2 = "\<lparr>file_path = Some ''copy.bin'', mode = Some ''rand'', record_size = 100,
            total_bytes = 500, seed = 42\<rparr>"
  let ?w = "sample_world ''data.bin'' 1000" and ?w2 = "sample_world ''copy.bin'' 4096"
  have p: "parse_args ?args init_config = Inr ?c" by code_simp
  have p2: "parse_args ?args2 init_config = Inr ?c2" by code_simp
  have e: "exit_code (main ?w ''fs_bench'' ?args) = 0" by code_simp
  have e2: "exit_code (main ?w2 ''bench2'' ?args2) = 0" by code_simp
  have l: "length (reads (io_trace (main ?w ''fs_bench'' ?args))) = 5" by code_simp
  have "(\<forall>i. i < length (reads (io_trace (main ?w ''fs_bench'' ?args)))
              \<and> i < length (reads (io_trace (main ?w2 ''bench2'' ?args2)))
            \<longrightarrow> reads (io_trace (main ?w2 ''bench2'' ?args2)) ! i
                = reads (io_trace (main ?w ''fs_bench'' ?args)) ! i)
       \<and> (exit_code (main ?w ''fs_bench'' ?args) = 0 \<and> exit_code (main ?w2 ''bench2'' ?args2) = 0
            \<longrightarrow> reads (io_trace (main ?w2 ''bench2'' ?args2))
                = reads (io_trace (main ?w ''fs_bench'' ?args)))"
    using p p2 by (rule C4_random_reproducible) (simp_all add: sample_world_def)
  with e e2 l show ?thesis by simp
qed

text \<open>
  C5.  The claim: a file whose size is strictly less than \<open>total_bytes\<close> makes the run fail
  with the file-too-small diagnostic before any read.  The program checks for a size of
  zero or less first and reports that with a diagnostic of its own, so for an empty file
  the file-too-small diagnostic is not the one printed.
\<close>

theorem C5_counterexample_empty_file:
  "sint (0 :: 64 word) < sint (100 :: 64 word)
   \<and> stderr_log (main (sample_world ''data.bin'' 0) ''fs_bench''
        [''--file'', ''data.bin'', ''--mode'', ''seq'', ''--record-size'', ''10'',
         ''--total-bytes'', ''100''])
     = [FileSizeNonPositive 0]
   \<and> stderr_log (main (sample_world ''data.bin'' 0) ''fs_bench''
        [''--file'', ''data.bin'', ''--mode'', ''seq'', ''--record-size'', ''10'',
         ''--total-bytes'', ''100''])
     \<noteq> [FileTooSmall 0 100]"
proof -
  have "stderr_log (main (sample_world ''data.bin'' 0) ''fs_bench''
        [''--file'', ''data.bin'', ''--mode'', ''seq'', ''--record-size'', ''10'',
         ''--total-bytes'', ''100''])
     = [FileSizeNonPositive 0]"
    by code_simp
  then show ?thesis by simp
qed

text \<open>
  C5, amended.  When the arguments are valid and the file can be opened and its size
  determined, a size strictly less than \<open>total_bytes\<close> ends the run with status 1 after
  \<open>open\<close>, \<open>fstat\<close> and \<open>close\<close>, without a read.  The diagnostic is the file-too-small one
  when the size is positive and the non-positive-size one otherwise.
\<close>

theorem C5_file_too_small:
  assumes "parse_args args init_config = Inr c"
    and "file_path c = Some p" and "mode c = Some m" and "m = ''rand'' \<or> m = ''seq''"
    and "record_size c \<noteq> 0" and "0 < sint (total_bytes c)"
    and "sys_open w p = None" and "sys_fstat w p = Inr fsz"
    and "sint fsz < sint (total_bytes c)"
  shows "exit_code (main w prog args) = 1
       \<and> stderr_log (main w prog args)
           = [if 0 < sint fsz then FileTooSmall fsz (total_bytes c) else FileSizeNonPositive fsz]
       \<and> io_trace (main w prog args) = [Open p, Fstat, Close]
       \<and> reads (io_trace (main w prog args)) = []"
proof -
  have main: "main w prog args = run w prog c"
    using assms(1) by (simp add: main_def)
  have tb: "\<not> total_bytes c \<le>s 0" using assms(6) by (simp add: word_sle_eq)
  have lt: "fsz <s total_bytes c" using assms(9) by (simp add: word_sless_alt)
  have sz: "fsz \<le>s 0 \<longleftrightarrow> \<not> 0 < sint fsz" by (auto simp: word_sle_eq)
  have "run w prog c = failure
          [if 0 < sint fsz then FileTooSmall fsz (total_bytes c) else FileSizeNonPositive fsz]
          [Open p, Fstat, Close]"
    using assms(2-5,7,8) tb lt sz by (auto simp: run_def)
  then show ?thesis unfolding main by (simp add: failure_def)
qed

theorem C5_file_too_small_witness:
  "sint (50 :: 64 word) < sint (100 :: 64 word)
   \<and> exit_code (main (sample_world ''data.bin'' 50) ''fs_bench''
        [''--file'', ''data.bin'', ''--mode'', ''seq'', ''--record-size'', ''10'',
         ''--total-bytes'', ''100'']) = 1
   \<and> stderr_log (main (sample_world ''data.bin'' 50) ''fs_bench''
        [''--file'', ''data.bin'', ''--mode'', ''seq'', ''--record-size'', ''10'',
         ''--total-bytes'', ''100'']) = [FileTooSmall 50 100]
   \<and> io_trace (main (sample_world ''data.bin'' 50) ''fs_bench''
        [''--file'', ''data.bin'', ''--mode'', ''seq'', ''--record-size'', ''10'',
         ''--total-bytes'', ''100'']) = [Open ''data.bin'', Fstat, Close]"
proof -
  let ?args = "[''--file'', ''data.bin'', ''--mode'', ''seq'', ''--record-size'', ''10'',
         ''--total-bytes'', ''100'']"
  let ?c = "\<lparr>file_path = Some ''data.bin'', mode = Some ''seq'', record_size = 10,
            total_bytes = 100, seed = 12345\<rparr>"
  let ?w = "sample_world ''data.bin'' 50"
  have p: "parse_args ?args init_config = Inr ?c" by code_simp
  have "exit_code (main ?w ''fs_bench'' ?args) = 1
       \<and> stderr_log (main ?w ''fs_bench'' ?args)
           = [if 0 < sint (50 :: 64 word) then FileTooSmall 50 (total_bytes ?c)
              else FileSizeNonPositive 50]
       \<and> io_trace (main ?w ''fs_bench'' ?args) = [Open ''data.bin'', Fstat, Close]
       \<and> reads (io_trace (main ?w ''fs_bench'' ?args)) = []"
    using p by (rule C5_file_too_small [where m = "''seq''"]) (simp_all add: sample_world_def)
  then show ?thesis by simp
qed

text \<open>
  C6.  When \<open>record_size > total_bytes\<close> the run exits with status 1 and issues no read, and the
  quotient \<open>ops\<close> that the program computes from a positive \<open>total_bytes\<close> is not positive.
  When the checks that come before hold (the arguments are valid, the file opens and is at
  least \<open>total_bytes\<close> long), the run stops at the check of \<open>ops\<close>: the diagnostic is the
  one for a total too small for the record size, and the file has seen \<open>open\<close>,
  \<open>fstat\<close> and \<open>close\<close> only.
\<close>

theorem C6_degenerate_workload:
  assumes "parse_args args init_config = Inr c"
    and "sint (total_bytes c) < uint (record_size c)"
  shows "exit_code (main w prog args) = 1
       \<and> reads (io_trace (main w prog args)) = []
       \<and> (0 < sint (total_bytes c) \<longrightarrow> plan_ops (total_bytes c) (record_size c) \<le>s 0)
       \<and> (\<forall>p m fsz. file_path c = Some p \<and> mode c = Some m \<and> (m = ''rand'' \<or> m = ''seq'')
             \<and> 0 < sint (total_bytes c)
             \<and> sys_open w p = None \<and> sys_fstat w p = Inr fsz
             \<and> sint (total_bytes c) \<le> sint fsz
           \<longrightarrow> stderr_log (main w prog args)
                 = [TotalBytesTooSmall (total_bytes c) (record_size c)]
               \<and> io_trace (main w prog args) = [Open p, Fstat, Close])"
proof -
  let ?rs = "record_size c" and ?tb = "total_bytes c"
  have main: "main w prog args = run w prog c"
    using assms(1) by (simp add: main_def)
  have not0: "exit_code (run w prog c) \<noteq> 0"
  proof
    assume "exit_code (run w prog c) = 0"
    from run_exit_0_plan [OF this] assms(2) show False by simp
  qed
  then have exit: "exit_code (main w prog args) = 1"
    unfolding main using run_status [of w prog c] by simp
  have none: "reads (io_trace (main w prog args)) = []"
  proof (rule ccontr)
    assume "reads (io_trace (main w prog args)) \<noteq> []"
    with run_reads [of w prog c] have "?rs \<noteq> 0 \<and> \<not> ?tb \<le>s 0 \<and> \<not> plan_ops ?tb ?rs \<le>s 0"
      unfolding main by blast
    then have "sint ?rs \<le> sint ?tb" "uint ?rs = sint ?rs"
      using plan_int [of ?rs ?tb] by simp_all
    with assms(2) show False by simp
  qed
  have deg: "0 < sint ?tb \<longrightarrow> plan_ops ?tb ?rs \<le>s 0"
    using assms(2) by (simp add: plan_ops_degenerate)
  have stop: "stderr_log (main w prog args) = [TotalBytesTooSmall ?tb ?rs]
               \<and> io_trace (main w prog args) = [Open p, Fstat, Close]"
    if h: "file_path c = Some p \<and> mode c = Some m \<and> (m = ''rand'' \<or> m = ''seq'')
             \<and> 0 < sint ?tb \<and> sys_open w p = None \<and> sys_fstat w p = Inr fsz
             \<and> sint ?tb \<le> sint fsz" for p m fsz
  proof -
    have rs: "?rs \<noteq> 0" using h assms(2) by auto
    have tb: "\<not> ?tb \<le>s 0" using h by (simp add: word_sle_eq)
    have f1: "\<not> fsz \<le>s 0" and f2: "\<not> fsz <s ?tb"
      using h by (simp_all add: word_sle_eq word_sless_alt)
    have ops: "plan_ops ?tb ?rs \<le>s 0" using h deg by simp
    have "run w prog c = failure [TotalBytesTooSmall ?tb ?rs] [Open p, Fstat, Close]"
      using h rs tb f1 f2 ops by (auto simp: run_def)
    then show ?thesis unfolding main by (simp add: failure_def)
  qed
  from exit none deg stop show ?thesis by blast
qed

theorem C6_degenerate_workload_witness:
  "sint (100 :: 64 word) < uint (200 :: 64 word)
   \<and> main (sample_world ''data.bin'' 1000) ''fs_bench''
        [''--file'', ''data.bin'', ''--mode'', ''rand'', ''--record-size'', ''200'',
         ''--total-bytes'', ''100'']
     = \<lparr>exit_code = 1, stderr_log = [TotalBytesTooSmall 100 200], stdout_log = [],
        io_trace = [Open ''data.bin'', Fstat, Close]\<rparr>
   \<and> plan_ops 100 200 \<le>s 0"
proof -
  let ?args = "[''--file'', ''data.bin'', ''--mode'', ''rand'', ''--record-size'', ''200'',
         ''--total-bytes'', ''100'']"
  let ?c = "\<lparr>file_path = Some ''data.bin'', mode = Some ''rand'', record_size = 200,
            total_bytes = 100, seed = 12345\<rparr>"
  let ?w = "sample_world ''data.bin'' 1000"
  have p: "parse_args ?args init_config = Inr ?c" by code_simp
  have h: "sint (total_bytes ?c) < uint (record_size ?c)" by simp
  have so: "stdout_log (main ?w ''fs_bench'' ?args) = []" by code_simp
  note inst = C6_degenerate_workload [OF p h, of ?w "''fs_bench''"]
  have pre: "file_path ?c = Some ''data.bin'' \<and> mode ?c = Some ''rand''
      \<and> (''rand'' = ''rand'' \<or> ''rand'' = ''seq'') \<and> 0 < sint (total_bytes ?c)
      \<and> sys_open ?w ''data.bin'' = None \<and> sys_fstat ?w ''data.bin'' = Inr 1000
      \<and> sint (total_bytes ?c) \<le> sint (1000 :: 64 word)"
    by (simp add: sample_world_def)
  from inst [THEN conjunct1]
    inst [THEN conjunct2, THEN conjunct2, THEN conjunct1]
    inst [THEN conjunct2, THEN conjunct2, THEN conjunct2, rule_format, OF pre] so
  show ?thesis by (cases "main ?w ''fs_bench'' ?args") simp
qed

text \<open>
  C7.  The claim: a \<open>--record-size\<close> that is zero or not a positive integer gets a diagnostic
  of its own, distinct from the one for a missing field, and the program exits before
  opening the file.  The program has one message for all of \<open>file_path\<close>, \<open>mode\<close>,
  \<open>record_size\<close> and \<open>total_bytes\<close>: a record size of 0 prints exactly what a missing
  \<open>--record-size\<close> prints.  And it rejects only what \<open>strtoull\<close> converts to 0:
  \<open>-1\<close> converts to \<open>2^64 - 1\<close> and \<open>4k\<close> to \<open>4\<close>, both pass the check, and the file is
  opened.
\<close>

theorem C7_counterexample_same_diagnostic:
  "stderr_log (main (sample_world ''data.bin'' 1000) ''fs_bench''
        [''--file'', ''data.bin'', ''--mode'', ''seq'', ''--record-size'', ''0'',
         ''--total-bytes'', ''100''])
     = stderr_log (main (sample_world ''data.bin'' 1000) ''fs_bench''
        [''--file'', ''data.bin'', ''--mode'', ''seq'', ''--total-bytes'', ''100''])
   \<and> stderr_log (main (sample_world ''data.bin'' 1000) ''fs_bench''
        [''--file'', ''data.bin'', ''--mode'', ''seq'', ''--record-size'', ''0'',
         ''--total-bytes'', ''100''])
     = [MissingRequired, Usage ''fs_bench'']
   \<and> main (sample_world ''data.bin'' 1000) ''fs_bench''
        [''--file'', ''data.bin'', ''--mode'', ''seq'', ''--record-size'', ''-1'',
         ''--total-bytes'', ''100'']
     = \<lparr>exit_code = 1, stderr_log = [TotalBytesTooSmall 100 (- 1)], stdout_log = [],
        io_trace = [Open ''data.bin'', Fstat, Close]\<rparr>
   \<and> main (sample_world ''data.bin'' 1000) ''fs_bench''
        [''--file'', ''data.bin'', ''--mode'', ''seq'', ''--record-size'', ''4k'',
         ''--total-bytes'', ''8'']
     = \<lparr>exit_code = 0, stderr_log = [], stdout_log = [],
        io_trace = [Open ''data.bin'', Fstat, Pread 4 0, Pread 4 4, Close]\<rparr>"
  by code_simp

text \<open>
  C7, amended.  When the record size is 0 after the argument loop (the value given
  converts to 0, as \<open>0\<close> and every text without a leading number do, or none was given),
  the program prints the missing-arguments diagnostic and the usage message, and exits
  with status 1 without opening the file.
\<close>

theorem C7_zero_record_size:
  assumes "parse_args args init_config = Inr c" and "record_size c = 0"
  shows "exit_code (main w prog args) = 1
       \<and> stderr_log (main w prog args) = [MissingRequired, Usage prog]
       \<and> stdout_log (main w prog args) = []
       \<and> io_trace (main w prog args) = []"
proof -
  have "main w prog args = run w prog c"
    using assms(1) by (simp add: main_def)
  also have "\<dots> = failure [MissingRequired, Usage prog] []"
    using assms(2) by (simp add: run_def split: option.splits)
  finally show ?thesis by (simp add: failure_def)
qed

theorem C7_zero_record_size_witness:
  "strtoull ''abc'' = 0
   \<and> main (sample_world ''data.bin'' 1000) ''fs_bench''
        [''--file'', ''data.bin'', ''--mode'', ''seq'', ''--record-size'', ''abc'',
         ''--total-bytes'', ''100'']
     = \<lparr>exit_code = 1, stderr_log = [MissingRequired, Usage ''fs_bench''], stdout_log = [],
        io_trace = []\<rparr>"
proof -
  let ?args = "[''--file'', ''data.bin'', ''--mode'', ''seq'', ''--record-size'', ''abc'',
         ''--total-bytes'', ''100'']"
  let ?c = "\<lparr>file_path = Some ''data.bin'', mode = Some ''seq'', record_size = 0,
            total_bytes = 100, seed = 12345\<rparr>"
  have s: "strtoull ''abc'' = 0" by code_simp
  have p: "parse_args ?args init_config = Inr ?c" by code_simp
  have z: "record_size ?c = 0" by simp
  from C7_zero_record_size [OF p z, of "sample_world ''data.bin'' 1000" "''fs_bench''"] s
  show ?thesis by (cases "main (sample_world ''data.bin'' 1000) ''fs_bench'' ?args") simp
qed

text \<open>
  C8.  The program never writes to the standard output.  A run either exits with status 0
  and an empty error stream, or exits with status 1 and a diagnostic on the error stream.
  It exits with status 0 exactly when the arguments parse, the four required values are
  there and valid, the file opens, its size is known, positive and at least
  \<open>total_bytes\<close>, \<open>record_size\<close> is at most \<open>total_bytes\<close>, the buffer is allocated, and every
  read that the run issued succeeded; then all \<open>op_count\<close> reads were issued.  Each failure
  (a rejected argument, a missing or zero value, an invalid mode, a failed \<open>open\<close> or
  \<open>fstat\<close>, a file that is empty or too small, a total too small for the record size, a
  failed \<open>malloc\<close>, a failed read) gives status 1 and a diagnostic.  The \<open>k\<close>-th read of the
  trace is the \<open>pread\<close> call number \<open>k\<close>.
\<close>

theorem C8_exit_status:
  "(let out = main w prog args; rd = reads (io_trace out)
    in stdout_log out = []
     \<and> (exit_code out = 0 \<and> stderr_log out = [] \<or> exit_code out = 1 \<and> stderr_log out \<noteq> [])
     \<and> (exit_code out = 0 \<longleftrightarrow>
          (\<exists>c p m fsz.
             parse_args args init_config = Inr c
             \<and> file_path c = Some p \<and> mode c = Some m \<and> (m = ''rand'' \<or> m = ''seq'')
             \<and> record_size c \<noteq> 0 \<and> 0 < sint (total_bytes c)
             \<and> sys_open w p = None \<and> sys_fstat w p = Inr fsz
             \<and> 0 < sint fsz \<and> sint (total_bytes c) \<le> sint fsz
             \<and> uint (record_size c) \<le> sint (total_bytes c)
             \<and> lib_malloc w (record_size c)
             \<and> (\<forall>k < length rd.
                  \<exists>n. sys_pread w (int k) (fst (rd ! k)) (snd (rd ! k)) = Inr n)))
     \<and> (exit_code out = 0 \<longrightarrow>
          (\<exists>c. parse_args args init_config = Inr c
             \<and> int (length rd) = sint (total_bytes c) div uint (record_size c)))
     \<and> ((\<exists>a. parse_args args init_config = Inl a)
          \<or> (\<exists>c. parse_args args init_config = Inr c
               \<and> (file_path c = None \<or> mode c = None \<or> record_size c = 0
                  \<or> sint (total_bytes c) \<le> 0
                  \<or> (\<exists>m. mode c = Some m \<and> m \<noteq> ''rand'' \<and> m \<noteq> ''seq'')
                  \<or> (\<exists>p e. file_path c = Some p \<and> sys_open w p = Some e)
                  \<or> (\<exists>p e. file_path c = Some p \<and> sys_fstat w p = Inl e)
                  \<or> (\<exists>p fsz. file_path c = Some p \<and> sys_fstat w p = Inr fsz
                        \<and> (sint fsz \<le> 0 \<or> sint fsz < sint (total_bytes c)))
                  \<or> sint (total_bytes c) < uint (record_size c)
                  \<or> \<not> lib_malloc w (record_size c)
                  \<or> (\<exists>k e. k < length rd
                        \<and> sys_pread w (int k) (fst (rd ! k)) (snd (rd ! k)) = Inl e)))
         \<longrightarrow> exit_code out = 1 \<and> stderr_log out \<noteq> [] \<and> stdout_log out = []))"
proof -
  let ?out = "main w prog args"
  let ?rd = "reads (io_trace ?out)"
  let ?pass = "\<lambda>c p m fsz.
             parse_args args init_config = Inr c
             \<and> file_path c = Some p \<and> mode c = Some m \<and> (m = ''rand'' \<or> m = ''seq'')
             \<and> record_size c \<noteq> 0 \<and> 0 < sint (total_bytes c)
             \<and> sys_open w p = None \<and> sys_fstat w p = Inr fsz
             \<and> 0 < sint fsz \<and> sint (total_bytes c) \<le> sint fsz
             \<and> uint (record_size c) \<le> sint (total_bytes c)
             \<and> lib_malloc w (record_size c)
             \<and> (\<forall>k < length ?rd.
                  \<exists>n. sys_pread w (int k) (fst (?rd ! k)) (snd (?rd ! k)) = Inr n)"
  have status: "stdout_log ?out = []
     \<and> (exit_code ?out = 0 \<and> stderr_log ?out = [] \<or> exit_code ?out = 1 \<and> stderr_log ?out \<noteq> [])"
  proof (cases "parse_args args init_config")
    case (Inl a)
    then show ?thesis by (simp add: main_def failure_def)
  next
    case (Inr c)
    then show ?thesis using run_status [of w prog c] by (simp add: main_def)
  qed
  have iff: "exit_code ?out = 0 \<longleftrightarrow> (\<exists>c p m fsz. ?pass c p m fsz)"
  proof (cases "parse_args args init_config")
    case (Inl a)
    then show ?thesis by (simp add: main_def failure_def)
  next
    case (Inr c)
    then have main: "main w prog args = run w prog c" by (simp add: main_def)
    show ?thesis
      unfolding main Inr using run_exit_0_iff [of w prog c] by simp
  qed
  have complete: "\<exists>c. parse_args args init_config = Inr c
             \<and> int (length ?rd) = sint (total_bytes c) div uint (record_size c)"
    if ok: "exit_code ?out = 0"
  proof (cases "parse_args args init_config")
    case (Inl a)
    then show ?thesis using ok by (simp add: main_def failure_def)
  next
    case (Inr c)
    let ?rs = "record_size c" and ?tb = "total_bytes c"
    let ?st = "lib_srand w (seed c)"
    have main: "main w prog args = run w prog c"
      using Inr by (simp add: main_def)
    from ok [unfolded main] obtain p m where m: "mode c = Some m"
      and fin: "snd (workload w (m = ''rand'') ?rs (plan_max_offset ?tb ?rs)
               (plan_ops ?tb ?rs) 0 ?st) = None"
      and run: "run w prog c = success ([Open p, Fstat]
            @ fst (workload w (m = ''rand'') ?rs (plan_max_offset ?tb ?rs)
               (plan_ops ?tb ?rs) 0 ?st) @ [Close])"
      by (rule run_exit_0)
    let ?evs = "fst (workload w (m = ''rand'') ?rs (plan_max_offset ?tb ?rs)
               (plan_ops ?tb ?rs) 0 ?st)"
    note plan = run_exit_0_plan [OF ok [unfolded main]]
    have "length (reads ?evs) = length ?evs"
      using workload_reads [of w "m = ''rand''" ?rs "plan_max_offset ?tb ?rs"
          "plan_ops ?tb ?rs" 0 ?st]
      by (metis length_map)
    moreover have "int (length ?evs) = max 0 (sint (plan_ops ?tb ?rs) - sint (0 :: 64 word))"
      using fin by (rule workload_length)
    moreover have "sint (plan_ops ?tb ?rs) = sint ?tb div sint ?rs"
      using plan(1,2) by (rule plan_ops_int)
    moreover have "0 \<le> sint ?tb div sint ?rs"
      using plan(1,2) by (simp add: pos_imp_zdiv_nonneg_iff)
    ultimately have "int (length (reads (io_trace (main w prog args))))
               = sint ?tb div uint ?rs"
      unfolding main run plan(3) by (simp add: success_def reads_append)
    with Inr show ?thesis by simp
  qed
  have failing: "exit_code ?out = 1 \<and> stderr_log ?out \<noteq> [] \<and> stdout_log ?out = []"
    if bad: "(\<exists>a. parse_args args init_config = Inl a)
          \<or> (\<exists>c. parse_args args init_config = Inr c
               \<and> (file_path c = None \<or> mode c = None \<or> record_size c = 0
                  \<or> sint (total_bytes c) \<le> 0
                  \<or> (\<exists>m. mode c = Some m \<and> m \<noteq> ''rand'' \<and> m \<noteq> ''seq'')
                  \<or> (\<exists>p e. file_path c = Some p \<and> sys_open w p = Some e)
                  \<or> (\<exists>p e. file_path c = Some p \<and> sys_fstat w p = Inl e)
                  \<or> (\<exists>p fsz. file_path c = Some p \<and> sys_fstat w p = Inr fsz
                        \<and> (sint fsz \<le> 0 \<or> sint fsz < sint (total_bytes c)))
                  \<or> sint (total_bytes c) < uint (record_size c)
                  \<or> \<not> lib_malloc w (record_size c)
                  \<or> (\<exists>k e. k < length ?rd
                        \<and> sys_pread w (int k) (fst (?rd ! k)) (snd (?rd ! k)) = Inl e)))"
  proof -
    have "exit_code ?out \<noteq> 0"
    proof
      assume "exit_code ?out = 0"
      then obtain c p m fsz where pass: "?pass c p m fsz"
        unfolding iff by blast
      from bad show False
      proof (elim disjE exE conjE)
        fix a assume "parse_args args init_config = Inl a"
        with pass show False by simp
      next
        fix c' assume "parse_args args init_config = Inr c'" "file_path c' = None"
        with pass show False by simp
      next
        fix c' assume "parse_args args init_config = Inr c'" "mode c' = None"
        with pass show False by simp
      next
        fix c' assume "parse_args args init_config = Inr c'" "record_size c' = 0"
        with pass show False by simp
      next
        fix c' assume "parse_args args init_config = Inr c'" "sint (total_bytes c') \<le> 0"
        with pass show False by simp
      next
        fix c' m' assume "parse_args args init_config = Inr c'" "mode c' = Some m'"
          "m' \<noteq> ''rand''" "m' \<noteq> ''seq''"
        with pass show False by auto
      next
        fix c' p' e assume "parse_args args init_config = Inr c'" "file_path c' = Some p'"
          "sys_open w p' = Some e"
        with pass show False by auto
      next
        fix c' p' e assume "parse_args args init_config = Inr c'" "file_path c' = Some p'"
          "sys_fstat w p' = Inl e"
        with pass show False by auto
      next
        fix c' p' fsz' assume "parse_args args init_config = Inr c'" "file_path c' = Some p'"
          "sys_fstat w p' = Inr fsz'" "sint fsz' \<le> 0"
        with pass show False by auto
      next
        fix c' p' fsz' assume "parse_args args init_config = Inr c'" "file_path c' = Some p'"
          "sys_fstat w p' = Inr fsz'" "sint fsz' < sint (total_bytes c')"
        with pass show False by auto
      next
        fix c' assume "parse_args args init_config = Inr c'"
          "sint (total_bytes c') < uint (record_size c')"
        with pass show False by auto
      next
        fix c' assume "parse_args args init_config = Inr c'" "\<not> lib_malloc w (record_size c')"
        with pass show False by auto
      next
        fix c' k e assume "parse_args args init_config = Inr c'" "k < length ?rd"
          "sys_pread w (int k) (fst (?rd ! k)) (snd (?rd ! k)) = Inl e"
        with pass show False by auto
      qed
    qed
    with status show ?thesis by simp
  qed
  show ?thesis
    unfolding Let_def
  proof (intro conjI)
    show "stdout_log ?out = []" using status ..
    show "exit_code ?out = 0 \<and> stderr_log ?out = [] \<or> exit_code ?out = 1 \<and> stderr_log ?out \<noteq> []"
      using status ..
    show "exit_code ?out = 0 \<longleftrightarrow> (\<exists>c p m fsz. ?pass c p m fsz)" by (fact iff)
    show "exit_code ?out = 0 \<longrightarrow>
          (\<exists>c. parse_args args init_config = Inr c
             \<and> int (length ?rd) = sint (total_bytes c) div uint (record_size c))"
      using complete by (rule impI)
  next
    show "(\<exists>a. parse_args args init_config = Inl a)
          \<or> (\<exists>c. parse_args args init_config = Inr c
               \<and> (file_path c = None \<or> mode c = None \<or> record_size c = 0
                  \<or> sint (total_bytes c) \<le> 0
                  \<or> (\<exists>m. mode c = Some m \<and> m \<noteq> ''rand'' \<and> m \<noteq> ''seq'')
                  \<or> (\<exists>p e. file_path c = Some p \<and> sys_open w p = Some e)
                  \<or> (\<exists>p e. file_path c = Some p \<and> sys_fstat w p = Inl e)
                  \<or> (\<exists>p fsz. file_path c = Some p \<and> sys_fstat w p = Inr fsz
                        \<and> (sint fsz \<le> 0 \<or> sint fsz < sint (total_bytes c)))
                  \<or> sint (total_bytes c) < uint (record_size c)
                  \<or> \<not> lib_malloc w (record_size c)
                  \<or> (\<exists>k e. k < length ?rd
                        \<and> sys_pread w (int k) (fst (?rd ! k)) (snd (?rd ! k)) = Inl e)))
         \<longrightarrow> exit_code ?out = 1 \<and> stderr_log ?out \<noteq> [] \<and> stdout_log ?out = []"
      using failing by (rule impI)
  qed
qed

theorem C8_exit_status_witness:
  "main (sample_world ''data.bin'' 1000) ''fs_bench''
      [''--file'', ''data.bin'', ''--mode'', ''seq'', ''--record-size'', ''500'',
       ''--total-bytes'', ''1000'']
     = \<lparr>exit_code = 0, stderr_log = [], stdout_log = [],
        io_trace = [Open ''data.bin'', Fstat, Pread 500 0, Pread 500 500, Close]\<rparr>
   \<and> exit_code (main (sample_world ''data.bin'' 1000) ''fs_bench''
      [''--file'', ''missing.bin'', ''--mode'', ''seq'', ''--record-size'', ''500'',
       ''--total-bytes'', ''1000'']) = 1
   \<and> stderr_log (main (sample_world ''data.bin'' 1000) ''fs_bench''
      [''--file'', ''missing.bin'', ''--mode'', ''seq'', ''--record-size'', ''500'',
       ''--total-bytes'', ''1000'']) \<noteq> []
   \<and> exit_code (main (sample_world ''data.bin'' 1000) ''fs_bench''
      [''--file'', ''data.bin'', ''--mode'', ''bogus'', ''--record-size'', ''500'',
       ''--total-bytes'', ''1000'']) = 1
   \<and> stderr_log (main (sample_world ''data.bin'' 1000) ''fs_bench''
      [''--file'', ''data.bin'', ''--mode'', ''bogus'', ''--record-size'', ''500'',
       ''--total-bytes'', ''1000'']) \<noteq> []
   \<and> exit_code (main ((sample_world ''data.bin'' 1000)\<lparr>lib_malloc := (\<lambda>n. False)\<rparr>) ''fs_bench''
      [''--file'', ''data.bin'', ''--mode'', ''seq'', ''--record-size'', ''500'',
       ''--total-bytes'', ''1000'']) = 1
   \<and> stderr_log (main ((sample_world ''data.bin'' 1000)\<lparr>lib_malloc := (\<lambda>n. False)\<rparr>) ''fs_bench''
      [''--file'', ''data.bin'', ''--mode'', ''seq'', ''--record-size'', ''500'',
       ''--total-bytes'', ''1000'']) \<noteq> []
   \<and> main (faulty_world ''data.bin'' 1000) ''fs_bench''
      [''--file'', ''data.bin'', ''--mode'', ''seq'', ''--record-size'', ''100'',
       ''--total-bytes'', ''1000'']
     = \<lparr>exit_code = 1, stderr_log = [PreadFailed 200 100 5], stdout_log = [],
        io_trace = [Open ''data.bin'', Fstat, Pread 100 0, Pread 100 100, Pread 100 200,
                    Close]\<rparr>"
proof -
  let ?args = "[''--file'', ''data.bin'', ''--mode'', ''seq'', ''--record-size'', ''500'',
       ''--total-bytes'', ''1000'']"
  let ?nofile = "[''--file'', ''missing.bin'', ''--mode'', ''seq'', ''--record-size'', ''500'',
       ''--total-bytes'', ''1000'']"
  let ?nomode = "[''--file'', ''data.bin'', ''--mode'', ''bogus'', ''--record-size'', ''500'',
       ''--total-bytes'', ''1000'']"
  let ?small = "[''--file'', ''data.bin'', ''--mode'', ''seq'', ''--record-size'', ''100'',
       ''--total-bytes'', ''1000'']"
  let ?c = "\<lparr>file_path = Some ''data.bin'', mode = Some ''seq'', record_size = 500,
            total_bytes = 1000, seed = 12345\<rparr>"
  let ?cf = "\<lparr>file_path = Some ''missing.bin'', mode = Some ''seq'', record_size = 500,
            total_bytes = 1000, seed = 12345\<rparr>"
  let ?cm = "\<lparr>file_path = Some ''data.bin'', mode = Some ''bogus'', record_size = 500,
            total_bytes = 1000, seed = 12345\<rparr>"
  let ?cs = "\<lparr>file_path = Some ''data.bin'', mode = Some ''seq'', record_size = 100,
            total_bytes = 1000, seed = 12345\<rparr>"
  let ?w = "sample_world ''data.bin'' 1000"
  let ?nomem = "(sample_world ''data.bin'' 1000)\<lparr>lib_malloc := (\<lambda>n. False)\<rparr>"
  let ?f = "faulty_world ''data.bin'' 1000"
  have p: "parse_args ?args init_config = Inr ?c" by code_simp
  have pf: "parse_args ?nofile init_config = Inr ?cf" by code_simp
  have pm: "parse_args ?nomode init_config = Inr ?cm" by code_simp
  have ps: "parse_args ?small init_config = Inr ?cs" by code_simp
  have tr: "io_trace (main ?w ''fs_bench'' ?args)
      = [Open ''data.bin'', Fstat, Pread 500 0, Pread 500 500, Close]"
    by code_simp
  have trf: "io_trace (main ?f ''fs_bench'' ?small)
      = [Open ''data.bin'', Fstat, Pread 100 0, Pread 100 100, Pread 100 200, Close]"
    by code_simp
  have ef: "stderr_log (main ?f ''fs_bench'' ?small) = [PreadFailed 200 100 5]"
    by code_simp
  note good = C8_exit_status [of ?w "''fs_bench''" ?args, unfolded Let_def]
  note nofile = C8_exit_status [of ?w "''fs_bench''" ?nofile, unfolded Let_def]
  note nomode = C8_exit_status [of ?w "''fs_bench''" ?nomode, unfolded Let_def]
  note nomem = C8_exit_status [of ?nomem "''fs_bench''" ?args, unfolded Let_def]
  note faulty = C8_exit_status [of ?f "''fs_bench''" ?small, unfolded Let_def]
  have "parse_args ?args init_config = Inr ?c
         \<and> file_path ?c = Some ''data.bin'' \<and> mode ?c = Some ''seq''
         \<and> (''seq'' = ''rand'' \<or> ''seq'' = ''seq'')
         \<and> record_size ?c \<noteq> 0 \<and> 0 < sint (total_bytes ?c)
         \<and> sys_open ?w ''data.bin'' = None \<and> sys_fstat ?w ''data.bin'' = Inr 1000
         \<and> 0 < sint (1000 :: 64 word) \<and> sint (total_bytes ?c) \<le> sint (1000 :: 64 word)
         \<and> uint (record_size ?c) \<le> sint (total_bytes ?c)
         \<and> lib_malloc ?w (record_size ?c)
         \<and> (\<forall>k < length (reads (io_trace (main ?w ''fs_bench'' ?args))).
               \<exists>n. sys_pread ?w (int k) (fst (reads (io_trace (main ?w ''fs_bench'' ?args)) ! k))
                      (snd (reads (io_trace (main ?w ''fs_bench'' ?args)) ! k)) = Inr n)"
    using p by (simp add: sample_world_def)
  then have e0: "exit_code (main ?w ''fs_bench'' ?args) = 0"
    by (intro good [THEN conjunct2, THEN conjunct2, THEN conjunct1, THEN iffD2] exI)
  have r1: "main ?w ''fs_bench'' ?args
     = \<lparr>exit_code = 0, stderr_log = [], stdout_log = [],
        io_trace = [Open ''data.bin'', Fstat, Pread 500 0, Pread 500 500, Close]\<rparr>"
    using e0 tr good [THEN conjunct1] good [THEN conjunct2, THEN conjunct1]
    by (cases "main ?w ''fs_bench'' ?args") simp
  have "\<exists>c. parse_args ?nofile init_config = Inr c
        \<and> (\<exists>p e. file_path c = Some p \<and> sys_open ?w p = Some e)"
    using pf by (simp add: sample_world_def)
  then have r2: "exit_code (main ?w ''fs_bench'' ?nofile) = 1
      \<and> stderr_log (main ?w ''fs_bench'' ?nofile) \<noteq> []"
    using nofile [THEN conjunct2, THEN conjunct2, THEN conjunct2, THEN conjunct2] by blast
  have "\<exists>c. parse_args ?nomode init_config = Inr c
        \<and> (\<exists>m. mode c = Some m \<and> m \<noteq> ''rand'' \<and> m \<noteq> ''seq'')"
    using pm by simp
  then have r3: "exit_code (main ?w ''fs_bench'' ?nomode) = 1
      \<and> stderr_log (main ?w ''fs_bench'' ?nomode) \<noteq> []"
    using nomode [THEN conjunct2, THEN conjunct2, THEN conjunct2, THEN conjunct2] by blast
  have "\<exists>c. parse_args ?args init_config = Inr c \<and> \<not> lib_malloc ?nomem (record_size c)"
    using p by simp
  then have r4: "exit_code (main ?nomem ''fs_bench'' ?args) = 1
      \<and> stderr_log (main ?nomem ''fs_bench'' ?args) \<noteq> []"
    using nomem [THEN conjunct2, THEN conjunct2, THEN conjunct2, THEN conjunct2] by blast
  have "\<exists>c. parse_args ?small init_config = Inr c
        \<and> (\<exists>k e. k < length (reads (io_trace (main ?f ''fs_bench'' ?small)))
              \<and> sys_pread ?f (int k) (fst (reads (io_trace (main ?f ''fs_bench'' ?small)) ! k))
                   (snd (reads (io_trace (main ?f ''fs_bench'' ?small)) ! k)) = Inl e)"
  proof -
    have fp: "sys_pread ?f 2 n off = Inl 5" for n off
      by (simp add: faulty_world_def)
    have k: "2 < length (reads (io_trace (main ?f ''fs_bench'' ?small)))"
      by (simp add: trf)
    have q: "sys_pread ?f (int 2) (fst (reads (io_trace (main ?f ''fs_bench'' ?small)) ! 2))
                   (snd (reads (io_trace (main ?f ''fs_bench'' ?small)) ! 2)) = Inl 5"
      by (simp add: fp)
    from ps k q show ?thesis by blast
  qed
  then have "exit_code (main ?f ''fs_bench'' ?small) = 1
      \<and> stdout_log (main ?f ''fs_bench'' ?small) = []"
    using faulty [THEN conjunct2, THEN conjunct2, THEN conjunct2, THEN conjunct2] by blast
  then have r5: "main ?f ''fs_bench'' ?small
     = \<lparr>exit_code = 1, stderr_log = [PreadFailed 200 100 5], stdout_log = [],
        io_trace = [Open ''data.bin'', Fstat, Pread 100 0, Pread 100 100, Pread 100 200,
                    Close]\<rparr>"
    using trf ef by (cases "main ?f ''fs_bench'' ?small") simp
  from r1 r2 r3 r4 r5 show ?thesis by simp
qed

text \<open>
  C9.  For a plan with \<open>0 < record_size \<le> total_bytes\<close> the block count
  \<open>(total_bytes - record_size) div record_size + 1\<close> is the number of operations
  \<open>total_bytes div record_size\<close>, as numbers and as the values the program computes.  So
  in sequential mode the \<open>i\<close>-th read is at \<open>i * record_size\<close> with \<open>i < block_count\<close>: the
  sequence never wraps around.  A complete run reads at \<open>0, record_size,
  2 * record_size, \<dots>\<close>, one read for each of the \<open>block_count\<close> block-aligned offsets, in
  strictly increasing order.
\<close>

theorem C9_block_count_is_op_count:
  assumes "0 < uint (record_size c)" and "uint (record_size c) \<le> sint (total_bytes c)"
  shows "(let R = uint (record_size c); T = sint (total_bytes c);
              bc = block_count (plan_max_offset (total_bytes c) (record_size c)) (record_size c);
              ops = plan_ops (total_bytes c) (record_size c)
          in bc = ops
           \<and> sint bc = (T - R) div R + 1
           \<and> sint ops = T div R
           \<and> (T - R) div R + 1 = T div R
           \<and> (parse_args args init_config = Inr c \<and> mode c = Some ''seq'' \<longrightarrow>
                (\<forall>i < length (read_offsets (io_trace (main w prog args))).
                    int i < sint bc
                  \<and> sint (read_offsets (io_trace (main w prog args)) ! i) = int i * R))
           \<and> (parse_args args init_config = Inr c \<and> mode c = Some ''seq''
                \<and> exit_code (main w prog args) = 0 \<longrightarrow>
                map sint (read_offsets (io_trace (main w prog args)))
                  = map (\<lambda>i. i * R) [0 .. sint bc - 1]
                \<and> sorted_wrt (<) (map sint (read_offsets (io_trace (main w prog args))))
                \<and> distinct (read_offsets (io_trace (main w prog args)))))"
proof -
  let ?rs = "record_size c" and ?tb = "total_bytes c"
  let ?R = "sint ?rs" and ?T = "sint ?tb"
  have "uint ?rs < 2 ^ 63" using assms(2) sint_lt [of ?tb] by simp
  then have u: "uint ?rs = ?R" by (simp add: sint_eq_uint_64)
  have R: "0 < ?R" and RT: "?R \<le> ?T" using assms u by simp_all
  have bc: "block_count (plan_max_offset ?tb ?rs) ?rs = plan_ops ?tb ?rs"
    using R RT by (rule block_count_eq_ops)
  have ops: "sint (plan_ops ?tb ?rs) = ?T div ?R"
    using R RT by (rule plan_ops_int)
  have num: "(?T - ?R) div ?R + 1 = ?T div ?R"
    using R RT by (rule block_count_int)
  have seq: "map sint (read_offsets (io_trace (main w prog args)))
                  = map (\<lambda>i. i * ?R) [0 .. ?T div ?R - 1]
           \<and> sorted_wrt (<) (map sint (read_offsets (io_trace (main w prog args))))
           \<and> distinct (read_offsets (io_trace (main w prog args)))"
    if run: "parse_args args init_config = Inr c \<and> mode c = Some ''seq''
                \<and> exit_code (main w prog args) = 0"
  proof -
    have main: "main w prog args = run w prog c"
      using run by (simp add: main_def)
    have "map sint (read_offsets (io_trace (run w prog c)))
         = map (\<lambda>i. (i mod (?T div ?R)) * ?R) [0 .. ?T div ?R - 1]"
      using run unfolding main by (intro run_seq_offsets) simp_all
    also have "\<dots> = map (\<lambda>i. i * ?R) [0 .. ?T div ?R - 1]"
      by (rule map_cong) simp_all
    finally have offs: "map sint (read_offsets (io_trace (main w prog args)))
         = map (\<lambda>i. i * ?R) [0 .. ?T div ?R - 1]"
      unfolding main .
    have inc: "sorted_wrt (<) (map sint (read_offsets (io_trace (main w prog args))))"
      unfolding offs using R by (rule strictly_increasing_multiples)
    then have "distinct (map sint (read_offsets (io_trace (main w prog args))))"
      by (simp add: strict_sorted_iff)
    then have "distinct (read_offsets (io_trace (main w prog args)))"
      by (simp add: distinct_map)
    with offs inc show ?thesis by simp
  qed
  let ?run = "parse_args args init_config = Inr c \<and> mode c = Some ''seq''
                \<and> exit_code (main w prog args) = 0"
  let ?offs = "read_offsets (io_trace (main w prog args))"
  have each: "int i < ?T div ?R \<and> sint (?offs ! i) = int i * ?R"
    if r: "parse_args args init_config = Inr c \<and> mode c = Some ''seq''"
      and i: "i < length ?offs" for i
  proof -
    have main: "main w prog args = run w prog c"
      using r by (simp add: main_def)
    from r have seq: "mode c = Some ''seq''" ..
    note nth = run_seq_nth [OF seq i [unfolded main]]
    have "int i mod (?T div ?R) = int i"
      using nth(5) by (simp add: mod_pos_pos_trivial)
    with nth(1,5) show ?thesis unfolding main by simp
  qed
  show ?thesis
    unfolding Let_def u
  proof (intro conjI impI allI)
    fix i
    assume r: "parse_args args init_config = Inr c \<and> mode c = Some ''seq''"
      and i: "i < length ?offs"
    show "int i < sint (block_count (plan_max_offset ?tb ?rs) ?rs)"
      unfolding bc ops using each [OF r i] ..
    show "sint (?offs ! i) = int i * ?R"
      using each [OF r i] ..
  next
    show "block_count (plan_max_offset ?tb ?rs) ?rs = plan_ops ?tb ?rs" by (fact bc)
    show "sint (block_count (plan_max_offset ?tb ?rs) ?rs) = (?T - ?R) div ?R + 1"
      unfolding bc ops num ..
    show "sint (plan_ops ?tb ?rs) = ?T div ?R" by (fact ops)
    show "(?T - ?R) div ?R + 1 = ?T div ?R" by (fact num)
  next
    assume r: ?run
    show "map sint ?offs
        = map (\<lambda>i. i * ?R) [0 .. sint (block_count (plan_max_offset ?tb ?rs) ?rs) - 1]"
      unfolding bc ops by (rule seq [OF r, THEN conjunct1])
  next
    assume r: ?run
    show "sorted_wrt (<) (map sint ?offs)"
      by (rule seq [OF r, THEN conjunct2, THEN conjunct1])
  next
    assume r: ?run
    show "distinct ?offs"
      by (rule seq [OF r, THEN conjunct2, THEN conjunct2])
  qed
qed

theorem C9_block_count_is_op_count_witness:
  "block_count (plan_max_offset 1000 300) 300 = plan_ops 1000 300
   \<and> sint (plan_ops 1000 300) = 3
   \<and> map sint (read_offsets (io_trace (main (sample_world ''data.bin'' 1000) ''fs_bench''
        [''--file'', ''data.bin'', ''--mode'', ''seq'', ''--record-size'', ''300'',
         ''--total-bytes'', ''1000''])))
      = [0, 300, 600]
   \<and> distinct (read_offsets (io_trace (main (sample_world ''data.bin'' 1000) ''fs_bench''
        [''--file'', ''data.bin'', ''--mode'', ''seq'', ''--record-size'', ''300'',
         ''--total-bytes'', ''1000''])))"
proof -
  let ?args = "[''--file'', ''data.bin'', ''--mode'', ''seq'', ''--record-size'', ''300'',
       ''--total-bytes'', ''1000'']"
  let ?c = "\<lparr>file_path = Some ''data.bin'', mode = Some ''seq'', record_size = 300,
            total_bytes = 1000, seed = 12345\<rparr>"
  let ?w = "sample_world ''data.bin'' 1000"
  have h1: "0 < uint (record_size ?c)" by simp
  have h2: "uint (record_size ?c) \<le> sint (total_bytes ?c)" by simp
  have p: "parse_args ?args init_config = Inr ?c" by code_simp
  have e: "exit_code (main ?w ''fs_bench'' ?args) = 0" by code_simp
  have u: "[0 .. 2] = [0, 1, 2 :: int]" by code_simp
  from C9_block_count_is_op_count [OF h1 h2, of ?args ?w "''fs_bench''"] p e
  show ?thesis by (simp add: Let_def u)
qed

text \<open>
  C10.  The claim: a command line that contains an argument which is not one of the five
  flags, or that has a flag as its last argument, gets the usage message and status 1 and
  no file is opened.  Every valid command line contains arguments that are not flags, the
  values; and the argument after a flag is taken as its value without being looked at, so
  a command line may end in a flag that is such a value.  Here \<open>--seed\<close> is the last
  argument and has no value after it, \<open>10\<close> is no flag, and the program opens the file
  called \<open>--seed\<close>, reads it and exits with status 0.
\<close>

theorem C10_counterexample_flag_as_value:
  "last [''--record-size'', ''10'', ''--total-bytes'', ''20'', ''--mode'', ''seq'',
         ''--file'', ''--seed''] = ''--seed''
   \<and> ''--seed'' \<in> set known_flags
   \<and> ''10'' \<notin> set known_flags
   \<and> main (sample_world ''--seed'' 100) ''fs_bench''
        [''--record-size'', ''10'', ''--total-bytes'', ''20'', ''--mode'', ''seq'',
         ''--file'', ''--seed'']
     = \<lparr>exit_code = 0, stderr_log = [], stdout_log = [],
        io_trace = [Open ''--seed'', Fstat, Pread 10 0, Pread 10 10, Close]\<rparr>"
  by code_simp

text \<open>
  C10, amended.  Read the command line from the left in pairs of a flag and its value.
  When, after any number of pairs whose first component is one of the five flags, the
  next argument is not one of the five flags or is the last argument, the program prints
  the unknown-or-incomplete diagnostic for that argument and the usage message, and exits
  with status 1 without opening the file.
\<close>

theorem C10_unknown_or_incomplete:
  assumes "even (length pre)"
    and "\<forall>k < length pre. even k \<longrightarrow> pre ! k \<in> set known_flags"
    and "a \<notin> set known_flags \<or> rest = []"
  shows "exit_code (main w prog (pre @ a # rest)) = 1
       \<and> stderr_log (main w prog (pre @ a # rest)) = [UnknownArgument a, Usage prog]
       \<and> stdout_log (main w prog (pre @ a # rest)) = []
       \<and> io_trace (main w prog (pre @ a # rest)) = []"
proof -
  obtain c' where "parse_args (pre @ a # rest) init_config = parse_args (a # rest) c'"
    using parse_args_pairs [OF assms(1,2)] by blast
  also have "\<dots> = Inl a" using assms(3) by (rule parse_args_reject)
  finally show ?thesis by (simp add: main_def failure_def)
qed

theorem C10_unknown_or_incomplete_witness:
  "main (sample_world ''data.bin'' 1000) ''fs_bench''
      [''--file'', ''data.bin'', ''--mode'', ''seq'', ''--record-size'']
     = \<lparr>exit_code = 1, stderr_log = [UnknownArgument ''--record-size'', Usage ''fs_bench''],
        stdout_log = [], io_trace = []\<rparr>
   \<and> main (sample_world ''data.bin'' 1000) ''fs_bench''
      [''--file'', ''data.bin'', ''--verbose'', ''--mode'', ''seq'']
     = \<lparr>exit_code = 1, stderr_log = [UnknownArgument ''--verbose'', Usage ''fs_bench''],
        stdout_log = [], io_trace = []\<rparr>"
proof -
  let ?w = "sample_world ''data.bin'' 1000"
  let ?pre = "[''--file'', ''data.bin'', ''--mode'', ''seq'']"
  let ?pre2 = "[''--file'', ''data.bin'']"
  have e: "even (length ?pre)" and e2: "even (length ?pre2)" by simp_all
  have k: "\<forall>k < length ?pre. even k \<longrightarrow> ?pre ! k \<in> set known_flags"
    by (simp add: known_flags_def less_Suc_eq all_conj_distrib)
  have k2: "\<forall>k < length ?pre2. even k \<longrightarrow> ?pre2 ! k \<in> set known_flags"
    by (simp add: known_flags_def less_Suc_eq all_conj_distrib)
  have l: "''--record-size'' \<notin> set known_flags \<or> ([] :: string list) = []" by simp
  have u: "''--verbose'' \<notin> set known_flags \<or> [''--mode'', ''seq''] = []"
    by (simp add: known_flags_def)
  from C10_unknown_or_incomplete [OF e k l, of ?w "''fs_bench''"]
  have "main ?w ''fs_bench'' [''--file'', ''data.bin'', ''--mode'', ''seq'', ''--record-size'']
     = \<lparr>exit_code = 1, stderr_log = [UnknownArgument ''--record-size'', Usage ''fs_bench''],
        stdout_log = [], io_trace = []\<rparr>"
    by (cases "main ?w ''fs_bench'' [''--file'', ''data.bin'', ''--mode'', ''seq'', ''--record-size'']")
       simp
  moreover from C10_unknown_or_incomplete [OF e2 k2 u, of ?w "''fs_bench''"]
  have "main ?w ''fs_bench'' [''--file'', ''data.bin'', ''--verbose'', ''--mode'', ''seq'']
     = \<lparr>exit_code = 1, stderr_log = [UnknownArgument ''--verbose'', Usage ''fs_bench''],
        stdout_log = [], io_trace = []\<rparr>"
    by (cases "main ?w ''fs_bench'' [''--file'', ''data.bin'', ''--verbose'', ''--mode'', ''seq'']")
       simp
  ultimately show ?thesis by simp
qed

end
